theory Spec2Isabelle
  imports Main "HOL-Library.Word" "HOL-Library.AList"
begin

section \<open>Values shared by the kit\<close>

text \<open>
  Go's \<open>int\<close> and \<open>uint\<close> have the same width \<open>w\<close>.  A \<open>uint\<close> is a \<open>'w word\<close>
  (its order is the unsigned one); an \<open>int\<close> is an Isabelle \<open>int\<close> in the range
  \<open>- 2 ^ (w - 1) ..< 2 ^ (w - 1)\<close>.  The two conversions of the source are written out.
\<close>

definition go_uint :: "int \<Rightarrow> 'w::len word" where
  \<comment> \<open>\<open>uint(x)\<close> for \<open>x int\<close>: the same bits, read unsigned\<close>
  "go_uint x = word_of_int x"

definition go_int :: "'w::len word \<Rightarrow> int" where
  \<comment> \<open>\<open>int(x)\<close> for \<open>x uint\<close>: the same bits, read in two's complement\<close>
  "go_int x = sint x"

definition go_int_sub :: "'w::len itself \<Rightarrow> int \<Rightarrow> int \<Rightarrow> int" where
  \<comment> \<open>\<open>a - b\<close> on \<open>int\<close>, wrapping at the width\<close>
  "go_int_sub w a b = sint (word_of_int (a - b) :: 'w word)"

datatype arg = I int | S string

type_synonym fstring = "string \<times> arg list"
  \<comment> \<open>a format string with its arguments, as handed to \<open>Sprintf\<close>, \<open>Infof\<close> or \<open>Withf\<close>\<close>

text \<open>Error values made outside the kit: by the engine, the file system, a parser.\<close>

datatype ext_error =
    ErrNilVersion  \<comment> \<open>the sentinel \<open>migrate.ErrNilVersion\<close>\<close>
  | ExtError string  \<comment> \<open>any other error, with its \<open>Error()\<close> text\<close>

fun Error_text :: "ext_error \<Rightarrow> string" where
  "Error_text ErrNilVersion = ''no migration''"
| "Error_text (ExtError s) = s"

datatype kind = DeadlineExceeded | MigratorGeneric | MigratorTimedOut | LocalizerGeneric

datatype error =
    Ext ext_error
  | Combined "ext_error list"
  | Kit kind "fstring option" "error option"

text \<open>
  Modelled from the spec: the kit's error type with its constructors (\<open>ErrDeadlineExceeded\<close>,
  \<open>ErrMigratorGeneric\<close>, \<open>ErrMigratorTimedOut\<close>, \<open>ErrLocalizerGeneric\<close>) and its methods
  (\<open>Withf\<close>, \<open>Wrap\<close>, \<open>WrapAs\<close>, \<open>Is\<close>) is declared elsewhere in the kit.  An error has
  a classification (its kind), may carry a descriptive message and may wrap an underlying
  cause; \<open>Is\<close> compares classifications.
\<close>

definition ErrDeadlineExceeded :: error where
  "ErrDeadlineExceeded = Kit DeadlineExceeded None None"

definition ErrMigratorGeneric :: error where
  "ErrMigratorGeneric = Kit MigratorGeneric None None"

definition ErrMigratorTimedOut :: error where
  "ErrMigratorTimedOut = Kit MigratorTimedOut None None"

definition ErrLocalizerGeneric :: error where
  "ErrLocalizerGeneric = Kit LocalizerGeneric None None"

text \<open>Modelled from the spec: \<open>Withf\<close> sets the descriptive message of a kit error.\<close>

fun Withf :: "error \<Rightarrow> string \<Rightarrow> arg list \<Rightarrow> error" where
  "Withf (Kit k m c) f as = Kit k (Some (f, as)) c"
| "Withf e f as = e"

text \<open>Modelled from the spec: \<open>Wrap\<close> and \<open>WrapAs\<close> set the underlying cause of a kit error.\<close>

fun Wrap :: "error \<Rightarrow> error \<Rightarrow> error" where
  "Wrap (Kit k m c) e = Kit k m (Some e)"
| "Wrap e' e = e'"

fun WrapAs :: "error \<Rightarrow> error \<Rightarrow> error" where
  "WrapAs (Kit k m c) e = Kit k m (Some e)"
| "WrapAs e' e = e'"

text \<open>Modelled from the spec: \<open>Is\<close> tells whether an error has the classification of a kit error.\<close>

fun Is :: "error \<Rightarrow> error \<Rightarrow> bool" where
  "Is (Kit k m c) (Kit k' m' c') = (k = k')"
| "Is e e' = False"

text \<open>
  Modelled from the spec: \<open>Utils.CombineErrors\<close> is declared elsewhere in the kit.  It
  combines the remaining errors, if any, into one failure, and is \<open>nil\<close> when there is none.
\<close>

fun CombineErrors :: "ext_error option \<Rightarrow> ext_error option \<Rightarrow> error option" where
  "CombineErrors None None = None"
| "CombineErrors (Some a) None = Some (Combined [a])"
| "CombineErrors None (Some b) = Some (Combined [b])"
| "CombineErrors (Some a) (Some b) = Some (Combined [a, b])"

text \<open>
  Modelled from the spec: the \<open>Observer\<close> is declared elsewhere in the kit.  It is used for
  notification only, never for control flow: a sink of log entries, in the order they were
  written.
\<close>

type_synonym Observer = "fstring list"

definition Info :: "string \<Rightarrow> Observer \<Rightarrow> Observer" where
  "Info msg obs = obs @ [(msg, [])]"

definition Infof :: "string \<Rightarrow> arg list \<Rightarrow> Observer \<Rightarrow> Observer" where
  "Infof f as obs = obs @ [(f, as)]"

datatype regexp = MustCompile string

section \<open>Channels, contexts and the deadline envelope\<close>

text \<open>
  A \<open>chan struct{}\<close>: how many values are buffered and whether it is closed.  A channel
  is an object: \<open>ident\<close> tells which \<open>make\<close> created it, so that a receive that waits on a
  channel can tell it from the channel that \<open>self.done\<close> holds later.  \<open>closes\<close> is a
  history variable, the number of \<open>close\<close> calls the channel has taken (Go panics at the
  second).
\<close>

record chan =
  ident :: nat
  buffered :: nat
  closed :: bool
  closes :: nat

definition make_chan :: "nat \<Rightarrow> chan" where
  \<comment> \<open>\<open>make(chan struct{}, 1)\<close>, the \<open>n\<close>-th channel made\<close>
  "make_chan n = \<lparr>ident = n, buffered = 0, closed = False, closes = 0\<rparr>"

definition close_chan :: "chan \<Rightarrow> chan" where
  "close_chan ch = ch\<lparr>closed := True, closes := Suc (closes ch)\<rparr>"

definition recv :: "chan \<Rightarrow> chan option" where
  \<comment> \<open>\<open><-ch\<close>: \<open>None\<close> when the receive cannot proceed\<close>
  "recv ch =
     (if 0 < buffered ch then Some (ch\<lparr>buffered := buffered ch - 1\<rparr>)
      else if closed ch then Some ch
      else None)"

definition release :: "chan \<Rightarrow> chan" where
  \<comment> \<open>\<open>select { case <-ch: default: close(ch) }\<close>\<close>
  "release ch = (case recv ch of Some ch' \<Rightarrow> ch' | None \<Rightarrow> close_chan ch)"

definition idle :: "chan \<Rightarrow> bool" where
  "idle ch = (recv ch \<noteq> None)"

text \<open>
  What an operation reads of its context: the time left until the deadline, if the context
  carries one (\<open>time.Until(ctxDeadline)\<close>, in nanoseconds); whether the context is done
  before the inner task of the envelope has delivered its result; and, when it is, how
  many steps of the inner task were done by then.
\<close>

record ctx =
  until_deadline :: "int option"
  fires_first :: bool
  progress :: nat

datatype 'a ret = Returns 'a | Panics | Hangs
  \<comment> \<open>how a call ends: it returns a value or panics; \<open>Hangs\<close>: it has not returned, its
      inner task waits and its context has not ended\<close>

datatype 's task = Done "error option" 's | Blocked 's
  \<comment> \<open>how far a task gets: to its \<open>return\<close>, or to a receive that cannot proceed\<close>

text \<open>
  An inner task is a list of steps that run one after the other on the state shared with
  the caller; between two steps the caller, or another task, may run.  A step reads and
  writes the local variables of the task: \<open>l_err\<close>, the error the task will return, and
  \<open>l_chan\<close>, the channel a receive of the task waits on.  A step either is done (\<open>Go\<close>)
  or cannot proceed and waits (\<open>Park\<close>); a step that waits is tried again when the task is
  resumed.
\<close>

record locals =
  l_err :: "error option"
  l_chan :: "nat option"

datatype 's move = Go locals 's | Park locals 's

type_synonym 's step = "locals \<Rightarrow> 's \<Rightarrow> 's move"

record 's suspended =
  rest :: "'s step list"  \<comment> \<open>the steps still to run, \<open>[]\<close> when the task has ended\<close>
  vars :: locals

fun run :: "nat \<Rightarrow> 's step list \<Rightarrow> locals \<Rightarrow> 's \<Rightarrow> 's suspended \<times> 's" where
  \<comment> \<open>at most \<open>n\<close> steps of a task, up to a step that waits\<close>
  "run 0 fs l s = (\<lparr>rest = fs, vars = l\<rparr>, s)"
| "run (Suc n) [] l s = (\<lparr>rest = [], vars = l\<rparr>, s)"
| "run (Suc n) (f # fs) l s =
     (case f l s of
        Go l' s' \<Rightarrow> run n fs l' s'
      | Park l' s' \<Rightarrow> (\<lparr>rest = f # fs, vars = l'\<rparr>, s'))"


definition task_of :: "'s suspended \<times> 's \<Rightarrow> 's task" where
  "task_of r =
     (case rest (fst r) of
        [] \<Rightarrow> Done (l_err (vars (fst r))) (snd r)
      | f # fs \<Rightarrow> Blocked (snd r))"

record 's outcome =
  result :: "error option ret"
  at_return :: 's
  inner :: "'s task"
  left :: "'s suspended"

text \<open>
  Modelled from the spec: \<open>Utils.Deadline\<close> is declared elsewhere in the kit.  The
  envelope spawns the inner task and waits for the first of two signals, the task's
  completion and the context's end.  When the context ends first it reports the
  exceeded deadline at once, and the inner task still runs on in the background, on the
  controller it shares with the caller.

  \<open>result\<close> is what the caller gets.  \<open>at_return\<close> is the state the caller finds when
  the call returns: when the context ended first, the state after the \<open>progress\<close> steps
  the task had done by then, which may be none and may be all of them.  \<open>left\<close> is the
  task as it stands at that moment; \<open>resume\<close> runs it on.  \<open>inner\<close> is where the task
  gets when it runs from the start with nothing in between.  When the task waits and the
  context has not ended, the call has not returned (\<open>Hangs\<close>): it returns when the task,
  resumed, has ended.
\<close>

definition Deadline :: "ctx \<Rightarrow> 's step list \<Rightarrow> 's \<Rightarrow> 's outcome" where
  "Deadline c work s =
     (let l0 = \<lparr>l_err = None, l_chan = None\<rparr>;
          alone = run (length work) work l0 s
      in if fires_first c
         then \<lparr>result = Returns (Some ErrDeadlineExceeded),
               at_return = snd (run (progress c) work l0 s),
               inner = task_of alone,
               left = fst (run (progress c) work l0 s)\<rparr>
         else \<lparr>result = (case task_of alone of Done err s' \<Rightarrow> Returns err | Blocked s' \<Rightarrow> Hangs),
               at_return = snd alone,
               inner = task_of alone,
               left = fst alone\<rparr>)"

definition logic_step :: "('s \<Rightarrow> error option \<times> 's) \<Rightarrow> 's step" where
  \<comment> \<open>\<open>err := func() error { ... }()\<close>: the calls of the engine are taken as one step\<close>
  "logic_step f l s = (case f s of (err, s') \<Rightarrow> Go (l\<lparr>l_err := err\<rparr>) s')"

definition task_step :: "('s \<Rightarrow> 's task) \<Rightarrow> 's step" where
  "task_step f l s =
     (case f s of
        Done err s' \<Rightarrow> Go (l\<lparr>l_err := err\<rparr>) s'
      | Blocked s' \<Rightarrow> Park l s')"

section \<open>The libraries\<close>

text \<open>
  The standard library and the parsers the kit calls are parameters of the model.
  \<open>WalkDir\<close> gives the visits that \<open>filepath.WalkDir\<close> makes under a root, in order:
  the path, the directory entry and the error handed to the callback.
\<close>

type_synonym Tag = string  \<comment> \<open>a \<open>language.Tag\<close>, by its \<open>String()\<close>\<close>

record DirEntry =
  Name :: string
  IsDir :: bool

record lib =
  filepath_Clean :: "string \<Rightarrow> string"
  filepath_Ext :: "string \<Rightarrow> string"
  filepath_WalkDir :: "string \<Rightarrow> (string \<times> DirEntry \<times> ext_error option) list"
  ioutil_ReadFile :: "string \<Rightarrow> ext_error + string"
  yaml_Unmarshal :: "string \<Rightarrow> ext_error + (string \<rightharpoonup> string)"
  language_Parse :: "string \<Rightarrow> ext_error + Tag"
  regexp_MatchString :: "regexp \<Rightarrow> string \<Rightarrow> bool"

fun Join :: "string list \<Rightarrow> string \<Rightarrow> string" where
  "Join [] sep = []"
| "Join [x] sep = x"
| "Join (x # y # ys) sep = x @ sep @ Join (y # ys) sep"

section \<open>The migration engine\<close>

text \<open>
  The engine (\<open>*migrate.Migrate\<close>) and the retry helper of the kit
  (\<open>Utils.ExponentialRetry\<close>, declared elsewhere) are parameters of the model: \<open>'e\<close> is the state behind the engine handle.  The
  lock timeout is a field of the handle that the operations set; the engine calls that
  take the lock read it.  \<open>'u\<close> is the type of Go's \<open>uint\<close>, a \<open>'w word\<close> wherever the
  engine is used.
\<close>

record ('u, 'e) env = lib +
  migrate_New :: "int \<Rightarrow> string \<Rightarrow> fstring \<Rightarrow> ext_error + 'e"
    \<comment> \<open>\<open>migrate.New(path, dsn)\<close> at the given attempt\<close>
  migrate_Version :: "'e \<Rightarrow> 'u \<times> bool \<times> ext_error option"
  migrate_Migrate :: "int \<Rightarrow> 'u \<Rightarrow> 'e \<Rightarrow> ext_error option \<times> 'e"
  migrate_Force :: "int \<Rightarrow> int \<Rightarrow> 'e \<Rightarrow> ext_error option \<times> 'e"
  migrate_Close :: "'e \<Rightarrow> (ext_error option \<times> ext_error option) \<times> 'e"
  migrate_GracefulStop :: "'e \<Rightarrow> 'e"
    \<comment> \<open>the non-blocking send on \<open>GracefulStop\<close>, taken or skipped\<close>
  migrate_DefaultLockTimeout :: int
  ExponentialRetry ::
    "int \<Rightarrow> int \<Rightarrow> int \<Rightarrow> (int \<Rightarrow> 'e option \<times> Observer \<Rightarrow> error option \<times> 'e option \<times> Observer)
       \<Rightarrow> 'e option \<times> Observer \<Rightarrow> error option \<times> 'e option \<times> Observer"

section \<open>The migrator\<close>

definition MIGRATOR_POSTGRES_DSN :: string where
  "MIGRATOR_POSTGRES_DSN = ''postgresql://%s:%s@%s:%d/%s?sslmode=%s&x-multi-statement=true''"

definition MIGRATOR_DEFAULT_MIGRATIONS_PATH :: string where
  "MIGRATOR_DEFAULT_MIGRATIONS_PATH = ''./migrations''"

definition MIGRATOR_ERR_DB_ALREADY_CLOSED :: regexp where
  "MIGRATOR_ERR_DB_ALREADY_CLOSED = MustCompile ''.*connection is already closed.*''"

record MigratorRetryConfig =
  Attempts :: int
  InitialDelay :: int
  LimitDelay :: int

record MigratorConfig =
  MigrationsPath :: "string option"
  DatabaseHost :: string
  DatabasePort :: int
  DatabaseSSLMode :: string
  DatabaseUser :: string
  DatabasePassword :: string
  DatabaseName :: string

record 'e Migrator =
  config :: MigratorConfig
  observer :: Observer
  migrator :: 'e
  LockTimeout :: int  \<comment> \<open>\<open>self.migrator.LockTimeout\<close>\<close>
  done_ch :: chan  \<comment> \<open>\<open>self.done\<close>\<close>

definition switch :: "error option ret \<Rightarrow> error option ret" where
  \<comment> \<open>the \<open>switch\<close> on the envelope's error that ends every operation\<close>
  "switch r =
     (case r of
        Returns None \<Rightarrow> Returns None
      | Returns (Some err) \<Rightarrow>
          if Is ErrDeadlineExceeded err then Returns (Some ErrMigratorTimedOut)
          else Returns (Some (Wrap ErrMigratorGeneric err))
      | Panics \<Rightarrow> Panics
      | Hangs \<Rightarrow> Hangs)"


definition migrations_path :: "('w::len word, 'e) env \<Rightarrow> MigratorConfig \<Rightarrow> string" where
  \<comment> \<open>what \<open>*config.MigrationsPath\<close> is set to\<close>
  "migrations_path E cfg =
     ''file://'' @ filepath_Clean E
       (case MigrationsPath cfg of None \<Rightarrow> MIGRATOR_DEFAULT_MIGRATIONS_PATH | Some p \<Rightarrow> p)"

definition retry_or_default :: "MigratorRetryConfig option \<Rightarrow> MigratorRetryConfig" where
  "retry_or_default retry =
     (case retry of
        None \<Rightarrow> \<lparr>Attempts = 1, InitialDelay = 0, LimitDelay = 0\<rparr>
      | Some r \<Rightarrow> r)"

definition dsn_of :: "MigratorConfig \<Rightarrow> fstring" where
  "dsn_of cfg =
     (MIGRATOR_POSTGRES_DSN,
      [S (DatabaseUser cfg), S (DatabasePassword cfg), S (DatabaseHost cfg),
       I (DatabasePort cfg), S (DatabaseName cfg), S (DatabaseSSLMode cfg)])"

definition connect_attempt ::
  "('w::len word, 'e) env \<Rightarrow> MigratorConfig \<Rightarrow> MigratorRetryConfig \<Rightarrow> int
     \<Rightarrow> 'e option \<times> Observer \<Rightarrow> error option \<times> 'e option \<times> Observer" where
  \<comment> \<open>the closure handed to the retry helper; it assigns the variable \<open>migrator\<close>\<close>
  "connect_attempt E cfg retry attempt s =
     (let obs = Infof ''Trying to connect to the %s database %d/%d''
                  [S (DatabaseName cfg), I attempt, I (Attempts retry)] (snd s)
      in case migrate_New E attempt (migrations_path E cfg) (dsn_of cfg) of
           Inl err \<Rightarrow> (Some (WrapAs ErrMigratorGeneric (Ext err)), None, obs)
         | Inr m \<Rightarrow> (None, Some m, obs))"

definition connect ::
  "('w::len word, 'e) env \<Rightarrow> MigratorConfig \<Rightarrow> MigratorRetryConfig option
     \<Rightarrow> 'e option \<times> Observer \<Rightarrow> ('e option \<times> Observer) task" where
  \<comment> \<open>the inner task of the envelope in \<open>NewMigrator\<close>\<close>
  "connect E cfg retry0 s =
     (let retry = retry_or_default retry0
      in case ExponentialRetry E (Attempts retry) (InitialDelay retry) (LimitDelay retry)
                (connect_attempt E cfg retry) s of
           (err, s') \<Rightarrow> Done err s')"

definition NewMigrator ::
  "('w::len word, 'e) env \<Rightarrow> ctx \<Rightarrow> Observer \<Rightarrow> MigratorConfig \<Rightarrow> MigratorRetryConfig option
     \<Rightarrow> (error + 'e Migrator) ret" where
  "NewMigrator E c obs0 config0 retry0 =
     (let out = Deadline c [task_step (connect E config0 retry0)] (None, obs0)
      in case switch (result out) of
           Returns (Some err) \<Rightarrow> Returns (Inl err)
         | Returns None \<Rightarrow>
             (case at_return out of
                (None, obs) \<Rightarrow> Panics  \<comment> \<open>\<open>migrator.Log\<close> on a nil handle\<close>
              | (Some m, obs) \<Rightarrow>
                  Returns (Inr \<lparr>config = config0\<lparr>MigrationsPath := Some (migrations_path E config0)\<rparr>,
                                observer = Infof ''Connected to the %s database''
                                             [S (DatabaseName config0)] obs,
                                migrator = m,
                                LockTimeout = migrate_DefaultLockTimeout E,
                                done_ch = close_chan (make_chan 0)\<rparr>))
         | Panics \<Rightarrow> Panics
         | Hangs \<Rightarrow> Hangs)"

definition begin_op :: "ctx \<Rightarrow> 'e Migrator \<Rightarrow> 'e Migrator" where
  \<comment> \<open>the two statements that open Assert, Apply and Rollback\<close>
  "begin_op c self =
     (let self1 = self\<lparr>done_ch := make_chan (Suc (ident (done_ch self)))\<rparr>
      in case until_deadline c of
           Some t \<Rightarrow> self1\<lparr>LockTimeout := t\<rparr>
         | None \<Rightarrow> self1)"

definition release_step :: "'e Migrator step" where
  \<comment> \<open>the \<open>select\<close> on \<open>self.done\<close> that ends the inner task, on the channel that
      \<open>self.done\<close> holds when the step runs; then \<open>return err\<close>\<close>
  "release_step l s = Go l (s\<lparr>done_ch := release (done_ch s)\<rparr>)"

definition end_op :: "('w::len word, 'e) env \<Rightarrow> 'e Migrator outcome \<Rightarrow> 'e Migrator outcome" where
  \<comment> \<open>the lock timeout goes back to the default, then the \<open>switch\<close>\<close>
  "end_op E out =
     \<lparr>result = switch (result out),
      at_return = (at_return out)\<lparr>LockTimeout := migrate_DefaultLockTimeout E\<rparr>,
      inner = map_task (\<lambda>s. s\<lparr>LockTimeout := migrate_DefaultLockTimeout E\<rparr>) (inner out),
      left = left out\<rparr>"

definition Assert_logic ::
  "('w::len word, 'e) env \<Rightarrow> int \<Rightarrow> 'e Migrator \<Rightarrow> error option \<times> 'e Migrator" where
  "Assert_logic E schemaVersion self =
     (case migrate_Version E (migrator self) of
        (currentSchemaVersion, bad, err) \<Rightarrow>
          if err \<noteq> None \<and> err \<noteq> Some ErrNilVersion
          then (map_option (\<lambda>e. WrapAs ErrMigratorGeneric (Ext e)) err, self)
          else if bad
          then (Some (Withf ErrMigratorGeneric ''current schema version %d is dirty''
                        [I (uint currentSchemaVersion)]), self)
          else if currentSchemaVersion > go_uint schemaVersion
          then (Some (Withf ErrMigratorGeneric
                        ''desired schema version %d behind from current one %d''
                        [I schemaVersion, I (uint currentSchemaVersion)]), self)
          else if currentSchemaVersion < go_uint schemaVersion
          then (Some (Withf ErrMigratorGeneric
                        ''desired schema version %d ahead of current one %d''
                        [I schemaVersion, I (uint currentSchemaVersion)]), self)
          else (None, self\<lparr>observer := Infof ''Desired schema version %d asserted''
                                          [I schemaVersion] (observer self)\<rparr>))"

definition Assert ::
  "('w::len word, 'e) env \<Rightarrow> ctx \<Rightarrow> int \<Rightarrow> 'e Migrator \<Rightarrow> 'e Migrator outcome" where
  "Assert E c schemaVersion self =
     end_op E (Deadline c [logic_step (Assert_logic E schemaVersion), release_step] (begin_op c self))"

definition Apply_logic ::
  "('w::len word, 'e) env \<Rightarrow> int \<Rightarrow> 'e Migrator \<Rightarrow> error option \<times> 'e Migrator" where
  "Apply_logic E schemaVersion self =
     (case migrate_Version E (migrator self) of
        (currentSchemaVersion, bad, err) \<Rightarrow>
          if err \<noteq> None \<and> err \<noteq> Some ErrNilVersion
          then (map_option (\<lambda>e. WrapAs ErrMigratorGeneric (Ext e)) err, self)
          else if bad
          then (Some (Withf ErrMigratorGeneric ''current schema version %d is dirty''
                        [I (uint currentSchemaVersion)]), self)
          else if currentSchemaVersion = go_uint schemaVersion
          then (None, self\<lparr>observer := Info ''No migrations to apply'' (observer self)\<rparr>)
          else if currentSchemaVersion > go_uint schemaVersion
          then (Some (Withf ErrMigratorGeneric
                        ''desired schema version %d behind from current one %d''
                        [I schemaVersion, I (uint currentSchemaVersion)]), self)
          else
            (let self1 = self\<lparr>observer := Infof ''%d migrations to be applied''
                           [I (go_int_sub TYPE('w) schemaVersion (go_int currentSchemaVersion))]
                           (observer self)\<rparr>
             in case migrate_Migrate E (LockTimeout self1) (go_uint schemaVersion) (migrator self1) of
                  (Some e, m') \<Rightarrow>
                    (Some (WrapAs ErrMigratorGeneric (Ext e)), self1\<lparr>migrator := m'\<rparr>)
                | (None, m') \<Rightarrow>
                    (None, self1\<lparr>migrator := m',
                                 observer := Info ''Applied all migrations successfully''
                                               (observer self1)\<rparr>)))"

definition Apply ::
  "('w::len word, 'e) env \<Rightarrow> ctx \<Rightarrow> int \<Rightarrow> 'e Migrator \<Rightarrow> 'e Migrator outcome" where
  "Apply E c schemaVersion self =
     end_op E (Deadline c [logic_step (Apply_logic E schemaVersion), release_step] (begin_op c self))"

definition force_dirty ::
  "('w::len word, 'e) env \<Rightarrow> 'w word \<Rightarrow> 'e Migrator \<Rightarrow> ext_error option \<times> 'e Migrator" where
  \<comment> \<open>the body of \<open>if bad\<close> in Rollback, up to the error of \<open>Force\<close>\<close>
  "force_dirty E currentSchemaVersion self =
     (let self1 = self\<lparr>observer := Infof ''Current schema version %d is dirty, ignoring''
                                      [I (uint currentSchemaVersion)] (observer self)\<rparr>
      in case migrate_Force E (LockTimeout self1) (go_int currentSchemaVersion) (migrator self1) of
           (err, m') \<Rightarrow> (err, self1\<lparr>migrator := m'\<rparr>))"

definition Rollback_logic ::
  "('w::len word, 'e) env \<Rightarrow> int \<Rightarrow> 'e Migrator \<Rightarrow> error option \<times> 'e Migrator" where
  "Rollback_logic E schemaVersion self =
     (case migrate_Version E (migrator self) of
        (currentSchemaVersion, bad, err) \<Rightarrow>
          if err \<noteq> None
          then (map_option (\<lambda>e. WrapAs ErrMigratorGeneric (Ext e)) err, self)
          else
            (case (if bad then force_dirty E currentSchemaVersion self else (None, self)) of
               (Some e, self1) \<Rightarrow> (Some (WrapAs ErrMigratorGeneric (Ext e)), self1)
             | (None, self1) \<Rightarrow>
                 if currentSchemaVersion = go_uint schemaVersion
                 then (None, self1\<lparr>observer := Info ''No migrations to rollback'' (observer self1)\<rparr>)
                 else if currentSchemaVersion < go_uint schemaVersion
                 then (Some (Withf ErrMigratorGeneric
                               ''desired schema version %d ahead of current one %d''
                               [I schemaVersion, I (uint currentSchemaVersion)]), self1)
                 else
                   (let self2 = self1\<lparr>observer := Infof ''%d migrations to be rollbacked''
                                  [I (go_int_sub TYPE('w) (go_int currentSchemaVersion) schemaVersion)]
                                  (observer self1)\<rparr>
                    in case migrate_Migrate E (LockTimeout self2) (go_uint schemaVersion)
                              (migrator self2) of
                         (Some e, m') \<Rightarrow>
                           (Some (WrapAs ErrMigratorGeneric (Ext e)), self2\<lparr>migrator := m'\<rparr>)
                       | (None, m') \<Rightarrow>
                           (None, self2\<lparr>migrator := m',
                                        observer := Info ''Rollbacked all migrations successfully''
                                                      (observer self2)\<rparr>))))"

definition Rollback ::
  "('w::len word, 'e) env \<Rightarrow> ctx \<Rightarrow> int \<Rightarrow> 'e Migrator \<Rightarrow> 'e Migrator outcome" where
  "Rollback E c schemaVersion self =
     end_op E (Deadline c [logic_step (Rollback_logic E schemaVersion), release_step] (begin_op c self))"

definition benign :: "('w::len word, 'e) env \<Rightarrow> ext_error option \<Rightarrow> ext_error option" where
  \<comment> \<open>a database-side error that matches the pattern becomes \<open>nil\<close>\<close>
  "benign E errD =
     (case errD of
        None \<Rightarrow> None
      | Some d \<Rightarrow>
          if regexp_MatchString E MIGRATOR_ERR_DB_ALREADY_CLOSED (Error_text d) then None
          else Some d)"

definition closing_step :: "('w::len word, 'e) env \<Rightarrow> 'e Migrator step" where
  \<comment> \<open>the log line and the non-blocking send on \<open>GracefulStop\<close>\<close>
  "closing_step E l s =
     Go l (s\<lparr>observer := Info ''Closing migrator'' (observer s),
            migrator := migrate_GracefulStop E (migrator s)\<rparr>)"

definition receive_step :: "'e Migrator step" where
  \<comment> \<open>\<open><-self.done\<close>: the channel is read from \<open>self.done\<close> when the receive starts; a
      receive that waits goes on only on that channel.  A channel that \<open>self.done\<close> no
      longer holds is never closed, since only \<open>self.done\<close> is closed.\<close>
  "receive_step l s =
     (case l_chan l of
        None \<Rightarrow>
          (case recv (done_ch s) of
             Some ch \<Rightarrow> Go l (s\<lparr>done_ch := ch\<rparr>)
           | None \<Rightarrow> Park (l\<lparr>l_chan := Some (ident (done_ch s))\<rparr>) s)
      | Some i \<Rightarrow>
          if ident (done_ch s) = i
          then (case recv (done_ch s) of
                  Some ch \<Rightarrow> Go (l\<lparr>l_chan := None\<rparr>) (s\<lparr>done_ch := ch\<rparr>)
                | None \<Rightarrow> Park l s)
          else Park l s)"

definition engine_close_step :: "('w::len word, 'e) env \<Rightarrow> 'e Migrator step" where
  "engine_close_step E l s =
     (case migrate_Close E (migrator s) of
        ((err, errD), m') \<Rightarrow>
          (case CombineErrors err (benign E errD) of
             Some e \<Rightarrow> Go (l\<lparr>l_err := Some (WrapAs ErrMigratorGeneric e)\<rparr>) (s\<lparr>migrator := m'\<rparr>)
           | None \<Rightarrow>
               Go l (s\<lparr>migrator := m',
                      observer := Info ''Closed migrator'' (observer s)\<rparr>)))"

definition Close :: "('w::len word, 'e) env \<Rightarrow> ctx \<Rightarrow> 'e Migrator \<Rightarrow> 'e Migrator outcome" where
  "Close E c self =
     (let out = Deadline c [closing_step E, receive_step, engine_close_step E] self
      in out\<lparr>result := switch (result out)\<rparr>)"

section \<open>The localizer\<close>

definition LOCALIZER_DEFAULT_LOCALES_PATH :: string where
  "LOCALIZER_DEFAULT_LOCALES_PATH = ''./locales''"

definition LOCALIZER_DEFAULT_LOCALE_EXTENSIONS :: regexp where
  \<comment> \<open>the pattern \<open>^.*\\.(yml|yaml)$\<close>; \<open>CHR 0x5C\<close> is the backslash\<close>
  "LOCALIZER_DEFAULT_LOCALE_EXTENSIONS = MustCompile (''^.*'' @ [CHR 0x5C] @ ''.(yml|yaml)$'')"

record LocalizerConfig =
  LocalesPath :: "string option"
  LocaleExtensions :: "regexp option"
  DefaultLocale :: Tag

type_synonym copies = "(Tag \<times> (string \<rightharpoonup> string)) list"
  \<comment> \<open>\<open>map[language.Tag]map[string]string\<close>, the keys in the order they were first set\<close>

record Localizer =
  lconfig :: LocalizerConfig
  lobserver :: Observer
  lcopies :: copies

definition walk_fn ::
  "'a lib_scheme \<Rightarrow> regexp option \<Rightarrow> string \<Rightarrow> DirEntry \<Rightarrow> ext_error option \<Rightarrow> copies
     \<Rightarrow> (error + copies) ret" where
  \<comment> \<open>the callback of \<open>WalkDir\<close> in \<open>_getCopies\<close>; a nil pattern panics when it is used\<close>
  "walk_fn L localeExtensions path info err copiesByLang =
     (case err of
        Some e \<Rightarrow> Returns (Inl (WrapAs ErrLocalizerGeneric (Ext e)))
      | None \<Rightarrow>
          if IsDir info then Returns (Inr copiesByLang)
          else
            (case localeExtensions of
               None \<Rightarrow> Panics
             | Some re \<Rightarrow>
                 if \<not> regexp_MatchString L re (Name info) then Returns (Inr copiesByLang)
                 else
                   (case language_Parse L
                           (take (length (Name info) - length (filepath_Ext L (Name info)))
                              (Name info)) of
                      Inl e \<Rightarrow> Returns (Inr copiesByLang)
                    | Inr lang \<Rightarrow>
                        (case ioutil_ReadFile L path of
                           Inl e \<Rightarrow> Returns (Inl (WrapAs ErrLocalizerGeneric (Ext e)))
                         | Inr file \<Rightarrow>
                             (case yaml_Unmarshal L file of
                                Inl e \<Rightarrow> Returns (Inl (WrapAs ErrLocalizerGeneric (Ext e)))
                              | Inr copies \<Rightarrow>
                                  Returns (Inr (AList.update lang copies copiesByLang)))))))"

fun walk ::
  "'a lib_scheme \<Rightarrow> regexp option \<Rightarrow> (string \<times> DirEntry \<times> ext_error option) list \<Rightarrow> copies
     \<Rightarrow> (error + copies) ret" where
  \<comment> \<open>\<open>WalkDir\<close> stops at the first error of its callback\<close>
  "walk L re [] acc = Returns (Inr acc)"
| "walk L re ((path, info, err) # vs) acc =
     (case walk_fn L re path info err acc of
        Returns (Inr acc') \<Rightarrow> walk L re vs acc'
      | r \<Rightarrow> r)"

definition getCopies ::
  "'a lib_scheme \<Rightarrow> Observer \<Rightarrow> string \<Rightarrow> regexp option \<Rightarrow> ((error + copies) \<times> Observer) ret" where
  "getCopies L obs localesPath localeExtensions =
     (case walk L localeExtensions (filepath_WalkDir L localesPath) [] of
        Returns (Inl err) \<Rightarrow> Returns (Inl (Wrap ErrLocalizerGeneric err), obs)
      | Returns (Inr copiesByLang) \<Rightarrow>
          (let locales = length copiesByLang
           in if locales < 1 then Returns (Inr copiesByLang, Info ''No locales loaded'' obs)
              else Returns (Inr copiesByLang,
                            Infof ''Loaded %d locales: %v''
                              [I (int locales), S (Join (map fst copiesByLang) '', '')] obs))
      | Panics \<Rightarrow> Panics
      | Hangs \<Rightarrow> Hangs)"

definition NewLocalizer ::
  "'a lib_scheme \<Rightarrow> Observer \<Rightarrow> LocalizerConfig \<Rightarrow> (error + Localizer) ret" where
  "NewLocalizer L obs config0 =
     (let config1 = (if LocalesPath config0 = None
                     then config0\<lparr>LocalesPath := Some LOCALIZER_DEFAULT_LOCALES_PATH\<rparr>
                     else config0);
          config2 = config1\<lparr>LocaleExtensions := Some LOCALIZER_DEFAULT_LOCALE_EXTENSIONS\<rparr>;
          localesPath = filepath_Clean L
                          (case LocalesPath config2 of
                             None \<Rightarrow> LOCALIZER_DEFAULT_LOCALES_PATH | Some p \<Rightarrow> p);
          config3 = config2\<lparr>LocalesPath := Some localesPath\<rparr>
      in case getCopies L obs localesPath (LocaleExtensions config3) of
           Returns (Inl err, obs') \<Rightarrow> Returns (Inl (Wrap ErrLocalizerGeneric err))
         | Returns (Inr copiesByLang, obs') \<Rightarrow>
             Returns (Inr \<lparr>lconfig = config3, lobserver = obs', lcopies = copiesByLang\<rparr>)
         | Panics \<Rightarrow> Panics
         | Hangs \<Rightarrow> Hangs)"

definition Refresh :: "'a lib_scheme \<Rightarrow> Localizer \<Rightarrow> (error option \<times> Localizer) ret" where
  "Refresh L self =
     (case LocalesPath (lconfig self) of
        None \<Rightarrow> Panics
      | Some localesPath \<Rightarrow>
          (case getCopies L (lobserver self) localesPath (LocaleExtensions (lconfig self)) of
             Returns (Inl err, obs') \<Rightarrow>
               Returns (Some (Wrap ErrLocalizerGeneric err), self\<lparr>lobserver := obs'\<rparr>)
           | Returns (Inr copiesByLang, obs') \<Rightarrow>
               Returns (None, self\<lparr>lobserver := obs', lcopies := copiesByLang\<rparr>)
           | Panics \<Rightarrow> Panics
           | Hangs \<Rightarrow> Hangs))"

section \<open>An environment to run the model on\<close>

text \<open>
  A small engine over an in-memory database, a directory of locale files and a matcher for
  the two patterns of the kit.  A version of \<open>-1\<close> is a database with no version yet.
\<close>

record mem_db =
  db_version :: int
  db_dirty :: bool
  db_open :: bool
  db_stopping :: bool

definition mem_Version :: "mem_db \<Rightarrow> 64 word \<times> bool \<times> ext_error option" where
  "mem_Version db =
     (if db_version db < 0 then (0, False, Some ErrNilVersion)
      else (word_of_int (db_version db), db_dirty db, None))"

definition mem_Migrate :: "int \<Rightarrow> 64 word \<Rightarrow> mem_db \<Rightarrow> ext_error option \<times> mem_db" where
  "mem_Migrate lock_timeout v db =
     (if db_dirty db then (Some (ExtError ''Dirty database version''), db)
      else if lock_timeout \<le> 0 then (Some (ExtError ''timeout: can't acquire database lock''), db)
      else (None, db\<lparr>db_version := uint v\<rparr>))"

definition mem_Force :: "int \<Rightarrow> int \<Rightarrow> mem_db \<Rightarrow> ext_error option \<times> mem_db" where
  "mem_Force lock_timeout v db =
     (if v < - 1 then (Some (ExtError ''version must be >= -1''), db)
      else (None, db\<lparr>db_version := v, db_dirty := False\<rparr>))"

definition mem_Close :: "mem_db \<Rightarrow> (ext_error option \<times> ext_error option) \<times> mem_db" where
  "mem_Close db =
     (if db_open db then ((None, None), db\<lparr>db_open := False\<rparr>)
      else ((None, Some (ExtError ''sql: connection is already closed'')), db))"

fun contains :: "string \<Rightarrow> string \<Rightarrow> bool" where
  "contains pat [] = (pat = [])"
| "contains pat (x # xs) = (take (length pat) (x # xs) = pat \<or> contains pat xs)"

definition ends_with :: "string \<Rightarrow> string \<Rightarrow> bool" where
  "ends_with suf s = (length suf \<le> length s \<and> drop (length s - length suf) s = suf)"

definition mem_MatchString :: "regexp \<Rightarrow> string \<Rightarrow> bool" where
  "mem_MatchString re s =
     (if re = MIGRATOR_ERR_DB_ALREADY_CLOSED then contains ''connection is already closed'' s
      else if re = LOCALIZER_DEFAULT_LOCALE_EXTENSIONS
      then (ends_with ''.yml'' s \<or> ends_with ''.yaml'' s) \<and> CHR 0x0A \<notin> set s
      else if re = MustCompile ''^.*[.]json$''
      then ends_with ''.json'' s \<and> CHR 0x0A \<notin> set s
      else False)"

fun mem_retry ::
  "nat \<Rightarrow> int \<Rightarrow> (int \<Rightarrow> 's \<Rightarrow> error option \<times> 's) \<Rightarrow> 's \<Rightarrow> error option \<times> 's" where
  "mem_retry 0 attempt fn s = (None, s)"
| "mem_retry (Suc n) attempt fn s =
     (case fn attempt s of
        (None, s') \<Rightarrow> (None, s')
      | (Some e, s') \<Rightarrow> if n = 0 then (Some e, s') else mem_retry n (attempt + 1) fn s')"

definition mem_Ext :: "string \<Rightarrow> string" where
  "mem_Ext s =
     (if ends_with ''.yml'' s then ''.yml''
      else if ends_with ''.yaml'' s then ''.yaml''
      else if ends_with ''.json'' s then ''.json''
      else [])"

definition mem_WalkDir :: "string \<Rightarrow> (string \<times> DirEntry \<times> ext_error option) list" where
  "mem_WalkDir root =
     (if root = ''locales''
      then [(''locales'', \<lparr>Name = ''locales'', IsDir = True\<rparr>, None),
            (''locales/en.yml'', \<lparr>Name = ''en.yml'', IsDir = False\<rparr>, None),
            (''locales/es.json'', \<lparr>Name = ''es.json'', IsDir = False\<rparr>, None)]
      else [(root, \<lparr>Name = root, IsDir = False\<rparr>, Some (ExtError ''no such file or directory''))])"

definition mem_Unmarshal :: "string \<Rightarrow> ext_error + (string \<rightharpoonup> string)" where
  "mem_Unmarshal file =
     (if file = ''HELLO: hello'' then Inr [''HELLO'' \<mapsto> ''hello'']
      else if file = ''HELLO: hola'' then Inr [''HELLO'' \<mapsto> ''hola'']
      else Inl (ExtError ''yaml: unmarshal errors''))"

definition mem_ReadFile :: "string \<Rightarrow> ext_error + string" where
  "mem_ReadFile path =
     (if path = ''locales/en.yml'' then Inr ''HELLO: hello''
      else if path = ''locales/es.json'' then Inr ''HELLO: hola''
      else Inl (ExtError ''no such file or directory''))"

definition mem_Parse :: "string \<Rightarrow> ext_error + Tag" where
  "mem_Parse s = (if s = ''en'' \<or> s = ''es'' then Inr s else Inl (ExtError ''language: tag is not well-formed''))"

definition mem :: "(64 word, mem_db) env" where
  "mem =
     \<lparr>filepath_Clean = (\<lambda>p. if take 2 p = ''./'' then drop 2 p else p),
      filepath_Ext = mem_Ext,
      filepath_WalkDir = mem_WalkDir,
      ioutil_ReadFile = mem_ReadFile,
      yaml_Unmarshal = mem_Unmarshal,
      language_Parse = mem_Parse,
      regexp_MatchString = mem_MatchString,
      migrate_New = (\<lambda>attempt path dsn.
         if attempt < 2 then Inl (ExtError ''connection refused'')
         else Inr \<lparr>db_version = - 1, db_dirty = False, db_open = True, db_stopping = False\<rparr>),
      migrate_Version = mem_Version,
      migrate_Migrate = mem_Migrate,
      migrate_Force = mem_Force,
      migrate_Close = mem_Close,
      migrate_GracefulStop = (\<lambda>db. db\<lparr>db_stopping := True\<rparr>),
      migrate_DefaultLockTimeout = 15000000000,
      ExponentialRetry = (\<lambda>attempts initial limit fn. mem_retry (nat attempts) 1 fn)\<rparr>"

definition mem_db0 :: "int \<Rightarrow> bool \<Rightarrow> mem_db" where
  "mem_db0 v dirty = \<lparr>db_version = v, db_dirty = dirty, db_open = True, db_stopping = False\<rparr>"

definition mem_migrator :: "int \<Rightarrow> bool \<Rightarrow> mem_db Migrator" where
  "mem_migrator v dirty =
     \<lparr>config = \<lparr>MigrationsPath = Some ''file://migrations'', DatabaseHost = ''localhost'',
                 DatabasePort = 5432, DatabaseSSLMode = ''disable'', DatabaseUser = ''kit'',
                 DatabasePassword = ''secret'', DatabaseName = ''kit''\<rparr>,
      observer = [],
      migrator = mem_db0 v dirty,
      LockTimeout = 15000000000,
      done_ch = close_chan (make_chan 0)\<rparr>"

definition closed_migrator :: "mem_db Migrator" where
  \<comment> \<open>a migrator whose connection was torn down before\<close>
  "closed_migrator = (mem_migrator 2 False)\<lparr>migrator := (mem_db0 2 False)\<lparr>db_open := False\<rparr>\<rparr>"

definition json_config :: LocalizerConfig where
  "json_config = \<lparr>LocalesPath = None, LocaleExtensions = Some (MustCompile ''^.*[.]json$''),
                   DefaultLocale = ''en''\<rparr>"

definition no_deadline :: ctx where
  "no_deadline = \<lparr>until_deadline = None, fires_first = False, progress = 0\<rparr>"

definition in_time :: ctx where
  \<comment> \<open>a deadline in one second that the inner task meets\<close>
  "in_time = \<lparr>until_deadline = Some 1000000000, fires_first = False, progress = 0\<rparr>"

definition too_late :: ctx where
  \<comment> \<open>a deadline in one millisecond that passes while the engine still works\<close>
  "too_late = \<lparr>until_deadline = Some 1000000, fires_first = True, progress = 0\<rparr>"

definition mem_failing :: "(64 word, mem_db) env" where
  \<comment> \<open>the engine \<open>mem\<close> with a close that fails on both sides\<close>
  "mem_failing =
     mem\<lparr>migrate_Close := (\<lambda>db.
       ((Some (ExtError ''source: close failed''), Some (ExtError ''pq: connection reset by peer'')),
        db\<lparr>db_open := False\<rparr>))\<rparr>"

section \<open>Notions the statements use\<close>

definition lock_timeout_of :: "ctx \<Rightarrow> 'e Migrator \<Rightarrow> int" where
  \<comment> \<open>the lock timeout in force while the inner task of an operation runs\<close>
  "lock_timeout_of c self = (case until_deadline c of Some t \<Rightarrow> t | None \<Rightarrow> LockTimeout self)"

definition forced ::
  "('w::len word, 'e) env \<Rightarrow> ctx \<Rightarrow> 'w word \<Rightarrow> bool \<Rightarrow> 'e Migrator \<Rightarrow> ext_error option \<times> 'e" where
  \<comment> \<open>the engine's answer to the force-reset to the reported version, asked for a dirty flag only\<close>
  "forced E c cur bad self =
     (if bad then migrate_Force E (lock_timeout_of c self) (go_int cur) (migrator self)
      else (None, migrator self))"



text \<open>\<open>n\<close> calls of Refresh in a row, whatever each one returns.\<close>

fun Refresh_n :: "'a lib_scheme \<Rightarrow> nat \<Rightarrow> Localizer \<Rightarrow> Localizer ret" where
  "Refresh_n L 0 l = Returns l"
| "Refresh_n L (Suc n) l =
     (case Refresh L l of
        Returns (err, l') \<Rightarrow> Refresh_n L n l'
      | Panics \<Rightarrow> Panics
      | Hangs \<Rightarrow> Hangs)"

text \<open>The visit \<open>v\<close> is a file whose name matches \<open>re\<close> and parses to the tag \<open>t\<close>.\<close>

definition loaded_from :: "'a lib_scheme \<Rightarrow> regexp \<Rightarrow> string \<times> DirEntry \<times> ext_error option \<Rightarrow> Tag \<Rightarrow> bool" where
  "loaded_from L re v t =
     (case v of (path, info, err) \<Rightarrow>
        \<not> IsDir info \<and> regexp_MatchString L re (Name info) \<and>
        language_Parse L (take (length (Name info) - length (filepath_Ext L (Name info))) (Name info)) = Inr t)"


section \<open>Facts shared by the operations\<close>

lemma switch_simps:
  "switch (Returns None) = Returns None"
  "switch (Returns (Some ErrDeadlineExceeded)) = Returns (Some ErrMigratorTimedOut)"
  "switch (Returns (Some (Kit MigratorGeneric m c))) =
     Returns (Some (Wrap ErrMigratorGeneric (Kit MigratorGeneric m c)))"
  "switch Hangs = Hangs"
  "switch Panics = Panics"
  by (simp_all add: switch_def ErrDeadlineExceeded_def)

lemma generic_simps:
  "Withf ErrMigratorGeneric f as = Kit MigratorGeneric (Some (f, as)) None"
  "WrapAs ErrMigratorGeneric e = Kit MigratorGeneric None (Some e)"
  "Wrap ErrMigratorGeneric e = Kit MigratorGeneric None (Some e)"
  by (simp_all add: ErrMigratorGeneric_def)

lemma begin_op_simps:
  "migrator (begin_op c s) = migrator s"
  "observer (begin_op c s) = observer s"
  "config (begin_op c s) = config s"
  "done_ch (begin_op c s) = make_chan (Suc (ident (done_ch s)))"
  "LockTimeout (begin_op c s) = (case until_deadline c of Some t \<Rightarrow> t | None \<Rightarrow> LockTimeout s)"
  by (simp_all add: begin_op_def Let_def split: option.splits)

text \<open>The inner task of Assert, Apply and Rollback, with any inner logic \<open>f\<close>, after \<open>n\<close> steps.\<close>

lemma run_op:
  "run n [logic_step f, release_step] l s =
     (if n = 0 then (\<lparr>rest = [logic_step f, release_step], vars = l\<rparr>, s)
      else if n = 1 then (\<lparr>rest = [release_step], vars = l\<lparr>l_err := fst (f s)\<rparr>\<rparr>, snd (f s))
      else (\<lparr>rest = [], vars = l\<lparr>l_err := fst (f s)\<rparr>\<rparr>,
            (snd (f s))\<lparr>done_ch := release (done_ch (snd (f s)))\<rparr>))"
proof (cases n)
  case 0
  then show ?thesis by simp
next
  case (Suc m)
  show ?thesis
  proof (cases m)
    case 0
    with Suc show ?thesis by (simp add: logic_step_def split: prod.splits)
  next
    case (Suc k)
    with \<open>n = Suc m\<close> show ?thesis
      by (cases k) (simp_all add: logic_step_def release_step_def split: prod.splits)
  qed
qed

lemma run_op_migrator:
  assumes "\<And>s. migrator (snd (f s)) = migrator s"
  shows "migrator (snd (run n [logic_step f, release_step] l s)) = migrator s"
  by (simp add: run_op assms)

text \<open>What the envelope of Assert, Apply and Rollback makes of any inner logic \<open>f\<close>.\<close>

lemma envelope_result:
  "result (end_op E (Deadline c [logic_step f, release_step] s0)) =
     (if fires_first c then Returns (Some ErrMigratorTimedOut) else switch (Returns (fst (f s0))))"
  by (simp add: end_op_def Deadline_def Let_def run_op task_of_def switch_simps)

lemma envelope_inner:
  "inner (end_op E (Deadline c [logic_step f, release_step] s0)) =
     Done (fst (f s0))
       ((snd (f s0))\<lparr>done_ch := release (done_ch (snd (f s0))),
                     LockTimeout := migrate_DefaultLockTimeout E\<rparr>)"
  by (simp add: end_op_def Deadline_def Let_def run_op task_of_def)

lemma envelope_at_return:
  "at_return (end_op E (Deadline c [logic_step f, release_step] s0)) =
     (if fires_first c
      then (snd (run (progress c) [logic_step f, release_step] \<lparr>l_err = None, l_chan = None\<rparr> s0))
             \<lparr>LockTimeout := migrate_DefaultLockTimeout E\<rparr>
      else (snd (f s0))\<lparr>done_ch := release (done_ch (snd (f s0))),
                         LockTimeout := migrate_DefaultLockTimeout E\<rparr>)"
  by (simp add: end_op_def Deadline_def Let_def run_op task_of_def)


lemma mem_simps:
  "migrate_Version mem = mem_Version"
  "migrate_Migrate mem = mem_Migrate"
  "migrate_Force mem = mem_Force"
  "migrate_Close mem = mem_Close"
  "migrate_GracefulStop mem = (\<lambda>db. db\<lparr>db_stopping := True\<rparr>)"
  "migrate_DefaultLockTimeout mem = 15000000000"
  "regexp_MatchString mem = mem_MatchString"
  by (simp_all add: mem_def)

lemma ctx_simps:
  "fires_first in_time = False" "until_deadline in_time = Some 1000000000"
  "fires_first no_deadline = False" "until_deadline no_deadline = None"
  "fires_first too_late = True" "until_deadline too_late = Some 1000000"
  "progress too_late = 0"
  by (simp_all add: in_time_def no_deadline_def too_late_def)

section \<open>Assert\<close>

lemma Assert_logic_frame:
  "migrator (snd (Assert_logic E d s)) = migrator s"
  "done_ch (snd (Assert_logic E d s)) = done_ch s"
  "LockTimeout (snd (Assert_logic E d s)) = LockTimeout s"
  by (simp_all add: Assert_logic_def split: prod.splits)

lemma Assert_logic_fst:
  assumes "migrate_Version E (migrator s) = (c, bad, err)"
      and "err = None \<or> err = Some ErrNilVersion"
  shows "fst (Assert_logic E d s) =
     (if bad then Some (Withf ErrMigratorGeneric ''current schema version %d is dirty'' [I (uint c)])
      else if go_uint d < c
      then Some (Withf ErrMigratorGeneric ''desired schema version %d behind from current one %d''
                   [I d, I (uint c)])
      else if c < go_uint d
      then Some (Withf ErrMigratorGeneric ''desired schema version %d ahead of current one %d''
                   [I d, I (uint c)])
      else None)"
  using assms by (auto simp add: Assert_logic_def)

text \<open>
  C1.  Assert never changes the state of the engine: not when it returns, and not when its
  inner task has finished.  When the engine reports the current version \<open>c\<close> and the dirty
  flag (with no error, or with the sentinel of a database with no version) and the
  deadline does not pass first, \<open>Assert(d)\<close> succeeds if and only if \<open>c\<close> is \<open>uint(d)\<close> and
  the flag is not set.  A set flag fails Generic with the dirty message; otherwise a
  current version above the desired one fails Generic with the behind message and one
  below it with the ahead message.  The versions are compared as the code compares them,
  \<open>c\<close> with \<open>uint(d)\<close>, which is \<open>d\<close> for every non-negative \<open>d\<close>.
\<close>

theorem Assert_decides:
  fixes E :: "('w::len word, 'e) env"
  shows
  "migrator (at_return (Assert E ctx d self)) = migrator self \<and>
   (\<exists>r s. inner (Assert E ctx d self) = Done r s \<and> migrator s = migrator self) \<and>
   (migrate_Version E (migrator self) = (c, bad, err) \<and> (err = None \<or> err = Some ErrNilVersion) \<and>
    \<not> fires_first ctx \<longrightarrow>
      ((result (Assert E ctx d self) = Returns None) = (c = go_uint d \<and> \<not> bad)) \<and>
      (bad \<longrightarrow> result (Assert E ctx d self) =
         Returns (Some (Wrap ErrMigratorGeneric
           (Withf ErrMigratorGeneric ''current schema version %d is dirty'' [I (uint c)])))) \<and>
      (\<not> bad \<and> go_uint d < c \<longrightarrow> result (Assert E ctx d self) =
         Returns (Some (Wrap ErrMigratorGeneric
           (Withf ErrMigratorGeneric ''desired schema version %d behind from current one %d''
              [I d, I (uint c)])))) \<and>
      (\<not> bad \<and> c < go_uint d \<longrightarrow> result (Assert E ctx d self) =
         Returns (Some (Wrap ErrMigratorGeneric
           (Withf ErrMigratorGeneric ''desired schema version %d ahead of current one %d''
              [I d, I (uint c)])))))"
proof (intro conjI impI)
  show "migrator (at_return (Assert E ctx d self)) = migrator self"
    by (simp add: Assert_def envelope_at_return run_op_migrator Assert_logic_frame begin_op_simps)
  show "\<exists>r s. inner (Assert E ctx d self) = Done r s \<and> migrator s = migrator self"
    by (simp add: Assert_def envelope_inner Assert_logic_frame begin_op_simps)
next
  assume h: "migrate_Version E (migrator self) = (c, bad, err) \<and>
    (err = None \<or> err = Some ErrNilVersion) \<and> \<not> fires_first ctx"
  then have v: "migrate_Version E (migrator (begin_op ctx self)) = (c, bad, err)"
    by (simp add: begin_op_simps)
  have r: "result (Assert E ctx d self) = switch (Returns (fst (Assert_logic E d (begin_op ctx self))))"
    using h by (simp add: Assert_def envelope_result)
  note f = Assert_logic_fst [OF v, of d]
  show "(result (Assert E ctx d self) = Returns None) = (c = go_uint d \<and> \<not> bad)"
    using h by (auto simp add: r f generic_simps switch_simps)
  show "result (Assert E ctx d self) =
         Returns (Some (Wrap ErrMigratorGeneric
           (Withf ErrMigratorGeneric ''current schema version %d is dirty'' [I (uint c)])))" if bad
    using h that by (simp add: r f generic_simps switch_simps)
  show "result (Assert E ctx d self) =
         Returns (Some (Wrap ErrMigratorGeneric
           (Withf ErrMigratorGeneric ''desired schema version %d behind from current one %d''
              [I d, I (uint c)])))" if "\<not> bad \<and> go_uint d < c"
    using h that by (simp add: r f generic_simps switch_simps)
  show "result (Assert E ctx d self) =
         Returns (Some (Wrap ErrMigratorGeneric
           (Withf ErrMigratorGeneric ''desired schema version %d ahead of current one %d''
              [I d, I (uint c)])))" if "\<not> bad \<and> c < go_uint d"
    using h that by (auto simp add: r f generic_simps switch_simps)
qed

theorem Assert_decides_witness:
  "result (Assert mem in_time 3 (mem_migrator 3 False)) = Returns None \<and>
   result (Assert mem in_time 3 (mem_migrator 3 True)) =
     Returns (Some (Wrap ErrMigratorGeneric
       (Withf ErrMigratorGeneric ''current schema version %d is dirty'' [I 3]))) \<and>
   result (Assert mem in_time 3 (mem_migrator 5 False)) =
     Returns (Some (Wrap ErrMigratorGeneric
       (Withf ErrMigratorGeneric ''desired schema version %d behind from current one %d''
          [I 3, I 5]))) \<and>
   result (Assert mem in_time 3 (mem_migrator 1 False)) =
     Returns (Some (Wrap ErrMigratorGeneric
       (Withf ErrMigratorGeneric ''desired schema version %d ahead of current one %d''
          [I 3, I 1])))"
proof -
  have v: "migrate_Version mem (migrator (mem_migrator 3 False)) = (3, False, None)"
          "migrate_Version mem (migrator (mem_migrator 3 True)) = (3, True, None)"
          "migrate_Version mem (migrator (mem_migrator 5 False)) = (5, False, None)"
          "migrate_Version mem (migrator (mem_migrator 1 False)) = (1, False, None)"
    by (simp_all add: mem_def mem_migrator_def mem_db0_def mem_Version_def)
  have t: "\<not> fires_first in_time" by (simp add: in_time_def)
  have g: "(go_uint 3 :: 64 word) = 3" by (simp add: go_uint_def)
  show ?thesis
    using Assert_decides [of mem in_time 3 "mem_migrator 3 False" 3 False None]
      Assert_decides [of mem in_time 3 "mem_migrator 3 True" 3 True None]
      Assert_decides [of mem in_time 3 "mem_migrator 5 False" 5 False None]
      Assert_decides [of mem in_time 3 "mem_migrator 1 False" 1 False None]
      v t g by simp
qed

section \<open>Apply\<close>

lemma Apply_logic_eval:
  fixes E :: "('a::len word, 'e) env"
  assumes "migrate_Version E (migrator s) = (c, bad, err)"
      and "err = None \<or> err = Some ErrNilVersion"
  shows "Apply_logic E d s =
     (if bad
      then (Some (Withf ErrMigratorGeneric ''current schema version %d is dirty'' [I (uint c)]), s)
      else if c = go_uint d
      then (None, s\<lparr>observer := Info ''No migrations to apply'' (observer s)\<rparr>)
      else if go_uint d < c
      then (Some (Withf ErrMigratorGeneric ''desired schema version %d behind from current one %d''
                    [I d, I (uint c)]), s)
      else
        (case fst (migrate_Migrate E (LockTimeout s) (go_uint d) (migrator s)) of
           Some e \<Rightarrow> Some (WrapAs ErrMigratorGeneric (Ext e))
         | None \<Rightarrow> None,
         s\<lparr>observer :=
              (case fst (migrate_Migrate E (LockTimeout s) (go_uint d) (migrator s)) of
                 Some e \<Rightarrow> Infof ''%d migrations to be applied''
                             [I (go_int_sub TYPE('a) d (go_int c))] (observer s)
               | None \<Rightarrow> Info ''Applied all migrations successfully''
                           (Infof ''%d migrations to be applied''
                              [I (go_int_sub TYPE('a) d (go_int c))] (observer s))),
            migrator := snd (migrate_Migrate E (LockTimeout s) (go_uint d) (migrator s))\<rparr>))"
  using assms
  by (auto simp add: Apply_logic_def Let_def split: prod.splits option.splits)

text \<open>
  C2.  When the engine reports the current version \<open>c\<close> and the dirty flag and the deadline
  does not pass first, \<open>Apply(d)\<close> fails on a set flag with the very result of Assert, the
  Generic failure with the dirty message, whatever the versions are, and leaves the engine
  as it was.  With the flag not set: when \<open>c\<close> is \<open>uint(d)\<close> it succeeds and the engine is
  untouched; when \<open>c\<close> is above, it fails Generic with the behind message and the engine is
  untouched; when \<open>c\<close> is below, the engine's migrate-to is run with \<open>uint(d)\<close>, and Apply
  succeeds when the engine does and fails Generic wrapping the engine's error otherwise.
\<close>

theorem Apply_decides:
  fixes E :: "('w::len word, 'e) env"
  assumes "migrate_Version E (migrator self) = (c, bad, err)"
      and "err = None \<or> err = Some ErrNilVersion"
      and "\<not> fires_first ctx"
  shows
  "(bad \<longrightarrow>
      result (Apply E ctx d self) = result (Assert E ctx d self) \<and>
      result (Apply E ctx d self) =
        Returns (Some (Wrap ErrMigratorGeneric
          (Withf ErrMigratorGeneric ''current schema version %d is dirty'' [I (uint c)]))) \<and>
      migrator (at_return (Apply E ctx d self)) = migrator self) \<and>
   (\<not> bad \<and> c = go_uint d \<longrightarrow>
      result (Apply E ctx d self) = Returns None \<and>
      migrator (at_return (Apply E ctx d self)) = migrator self) \<and>
   (\<not> bad \<and> go_uint d < c \<longrightarrow>
      result (Apply E ctx d self) =
        Returns (Some (Wrap ErrMigratorGeneric
          (Withf ErrMigratorGeneric ''desired schema version %d behind from current one %d''
             [I d, I (uint c)]))) \<and>
      migrator (at_return (Apply E ctx d self)) = migrator self) \<and>
   (\<not> bad \<and> c < go_uint d \<longrightarrow>
      migrator (at_return (Apply E ctx d self)) =
        snd (migrate_Migrate E (lock_timeout_of ctx self) (go_uint d) (migrator self)) \<and>
      result (Apply E ctx d self) =
        (case fst (migrate_Migrate E (lock_timeout_of ctx self) (go_uint d) (migrator self)) of
           None \<Rightarrow> Returns None
         | Some e \<Rightarrow>
             Returns (Some (Wrap ErrMigratorGeneric (WrapAs ErrMigratorGeneric (Ext e))))))"
proof -
  have v: "migrate_Version E (migrator (begin_op ctx self)) = (c, bad, err)"
    using assms(1) by (simp add: begin_op_simps)
  note f = Apply_logic_eval [OF v assms(2), of d]
  have r: "result (Apply E ctx d self) = switch (Returns (fst (Apply_logic E d (begin_op ctx self))))"
    using assms(3) by (simp add: Apply_def envelope_result)
  have a: "at_return (Apply E ctx d self) =
     (snd (Apply_logic E d (begin_op ctx self)))
       \<lparr>done_ch := release (done_ch (snd (Apply_logic E d (begin_op ctx self)))),
        LockTimeout := migrate_DefaultLockTimeout E\<rparr>"
    using assms(3) by (simp add: Apply_def envelope_at_return)
  have lt: "LockTimeout (begin_op ctx self) = lock_timeout_of ctx self"
    by (simp add: begin_op_simps lock_timeout_of_def)
  have 1: "result (Apply E ctx d self) = result (Assert E ctx d self) \<and>
      result (Apply E ctx d self) =
        Returns (Some (Wrap ErrMigratorGeneric
          (Withf ErrMigratorGeneric ''current schema version %d is dirty'' [I (uint c)]))) \<and>
      migrator (at_return (Apply E ctx d self)) = migrator self" if bad
    using that assms(3) Assert_logic_fst [OF v assms(2), of d]
    by (simp add: r a f Assert_def envelope_result generic_simps switch_simps begin_op_simps)
  have 2: "result (Apply E ctx d self) = Returns None \<and>
      migrator (at_return (Apply E ctx d self)) = migrator self" if "\<not> bad \<and> c = go_uint d"
    using that by (simp add: r a f switch_simps begin_op_simps)
  have 3: "result (Apply E ctx d self) =
        Returns (Some (Wrap ErrMigratorGeneric
          (Withf ErrMigratorGeneric ''desired schema version %d behind from current one %d''
             [I d, I (uint c)]))) \<and>
      migrator (at_return (Apply E ctx d self)) = migrator self" if "\<not> bad \<and> go_uint d < c"
    using that by (auto simp add: r a f generic_simps switch_simps begin_op_simps)
  have 4: "migrator (at_return (Apply E ctx d self)) =
        snd (migrate_Migrate E (lock_timeout_of ctx self) (go_uint d) (migrator self)) \<and>
      result (Apply E ctx d self) =
        (case fst (migrate_Migrate E (lock_timeout_of ctx self) (go_uint d) (migrator self)) of
           None \<Rightarrow> Returns None
         | Some e \<Rightarrow>
             Returns (Some (Wrap ErrMigratorGeneric (WrapAs ErrMigratorGeneric (Ext e)))))"
    if "\<not> bad \<and> c < go_uint d"
    using that
    by (auto simp add: r a f lt generic_simps switch_simps begin_op_simps(1-4) split: option.splits)
  from 1 2 3 4 show ?thesis by blast
qed


theorem Apply_decides_witness:
  "result (Apply mem in_time 3 (mem_migrator (- 1) False)) = Returns None \<and>
   db_version (migrator (at_return (Apply mem in_time 3 (mem_migrator (- 1) False)))) = 3 \<and>
   result (Apply mem in_time 3 (mem_migrator 3 False)) = Returns None \<and>
   migrator (at_return (Apply mem in_time 3 (mem_migrator 3 False))) = mem_db0 3 False \<and>
   result (Apply mem in_time 1 (mem_migrator 5 False)) =
     Returns (Some (Wrap ErrMigratorGeneric
       (Withf ErrMigratorGeneric ''desired schema version %d behind from current one %d''
          [I 1, I 5]))) \<and>
   result (Apply mem in_time 3 (mem_migrator 2 True)) =
     result (Assert mem in_time 3 (mem_migrator 2 True))"
proof -
  have v: "migrate_Version mem (migrator (mem_migrator (- 1) False)) = (0, False, Some ErrNilVersion)"
          "migrate_Version mem (migrator (mem_migrator 3 False)) = (3, False, None)"
          "migrate_Version mem (migrator (mem_migrator 5 False)) = (5, False, None)"
          "migrate_Version mem (migrator (mem_migrator 2 True)) = (2, True, None)"
    by (simp_all add: mem_simps mem_migrator_def mem_db0_def mem_Version_def)
  have g: "(go_uint 3 :: 64 word) = 3" "(go_uint 1 :: 64 word) = 1" by (simp_all add: go_uint_def)
  have m: "mem_Migrate (lock_timeout_of in_time (mem_migrator (- 1) False)) 3
             (migrator (mem_migrator (- 1) False)) = (None, mem_db0 3 False)"
    by (simp add: mem_Migrate_def lock_timeout_of_def ctx_simps mem_migrator_def mem_db0_def)
  have t: "\<not> fires_first in_time" by (simp add: ctx_simps)
  have k: "migrator (mem_migrator 3 False) = mem_db0 3 False" by (simp add: mem_migrator_def)
  show ?thesis
    using Apply_decides [where E = mem and ctx = in_time and d = 3, OF v(1) _ t]
      Apply_decides [where E = mem and ctx = in_time and d = 3, OF v(2) _ t]
      Apply_decides [where E = mem and ctx = in_time and d = 1, OF v(3) _ t]
      Apply_decides [where E = mem and ctx = in_time and d = 3, OF v(4) _ t]
    by (simp add: g m k mem_simps mem_db0_def)
qed

section \<open>Rollback\<close>

lemma force_dirty_eval:
  "force_dirty E c s =
     (fst (migrate_Force E (LockTimeout s) (go_int c) (migrator s)),
      s\<lparr>observer := Infof ''Current schema version %d is dirty, ignoring'' [I (uint c)] (observer s),
        migrator := snd (migrate_Force E (LockTimeout s) (go_int c) (migrator s))\<rparr>)"
  by (simp add: force_dirty_def Let_def split: prod.splits)

lemma Rollback_logic_eval:
  fixes E :: "('a::len word, 'e) env"
  assumes "migrate_Version E (migrator s) = (c, bad, None)"
      and "bad \<longrightarrow> fst (migrate_Force E (LockTimeout s) (go_int c) (migrator s)) = None"
  shows "fst (Rollback_logic E d s) =
     (if c = go_uint d then None
      else if c < go_uint d
      then Some (Withf ErrMigratorGeneric ''desired schema version %d ahead of current one %d''
                    [I d, I (uint c)])
      else (case fst (migrate_Migrate E (LockTimeout s) (go_uint d)
                        (if bad then snd (migrate_Force E (LockTimeout s) (go_int c) (migrator s))
                         else migrator s)) of
              Some e \<Rightarrow> Some (WrapAs ErrMigratorGeneric (Ext e))
            | None \<Rightarrow> None))"
    and "migrator (snd (Rollback_logic E d s)) =
     (if c = go_uint d \<or> c < go_uint d
      then (if bad then snd (migrate_Force E (LockTimeout s) (go_int c) (migrator s))
            else migrator s)
      else snd (migrate_Migrate E (LockTimeout s) (go_uint d)
                  (if bad then snd (migrate_Force E (LockTimeout s) (go_int c) (migrator s))
                   else migrator s)))"
  using assms
  by (auto simp add: Rollback_logic_def force_dirty_eval Let_def split: prod.splits option.splits)

text \<open>
  C3.  When the engine reports the current version \<open>c\<close> and the dirty flag with no error
  and the deadline does not pass first, \<open>Rollback(d)\<close> on a set flag first asks the engine
  to force its recorded version to \<open>c\<close>, and when the engine does so it goes on with the
  engine \<open>m\<close> that the force-reset left (with the flag not set, \<open>m\<close> is the engine as it
  was).  Then: when \<open>c\<close> is \<open>uint(d)\<close> it succeeds and does nothing more; when \<open>c\<close> is
  below, it fails Generic with the ahead message; when \<open>c\<close> is above, the engine's
  migrate-to is run with \<open>uint(d)\<close> on \<open>m\<close>, and Rollback succeeds when the engine does
  and fails Generic wrapping the engine's error otherwise.
\<close>

theorem Rollback_decides:
  fixes E :: "('w::len word, 'e) env"
  assumes "migrate_Version E (migrator self) = (c, bad, None)"
      and "forced E ctx c bad self = (None, m)"
      and "\<not> fires_first ctx"
  shows
  "(c = go_uint d \<longrightarrow>
      result (Rollback E ctx d self) = Returns None \<and>
      migrator (at_return (Rollback E ctx d self)) = m) \<and>
   (c < go_uint d \<longrightarrow>
      result (Rollback E ctx d self) =
        Returns (Some (Wrap ErrMigratorGeneric
          (Withf ErrMigratorGeneric ''desired schema version %d ahead of current one %d''
             [I d, I (uint c)]))) \<and>
      migrator (at_return (Rollback E ctx d self)) = m) \<and>
   (go_uint d < c \<longrightarrow>
      migrator (at_return (Rollback E ctx d self)) =
        snd (migrate_Migrate E (lock_timeout_of ctx self) (go_uint d) m) \<and>
      result (Rollback E ctx d self) =
        (case fst (migrate_Migrate E (lock_timeout_of ctx self) (go_uint d) m) of
           None \<Rightarrow> Returns None
         | Some e \<Rightarrow>
             Returns (Some (Wrap ErrMigratorGeneric (WrapAs ErrMigratorGeneric (Ext e))))))"
proof -
  have v: "migrate_Version E (migrator (begin_op ctx self)) = (c, bad, None)"
    using assms(1) by (simp add: begin_op_simps)
  have lt: "LockTimeout (begin_op ctx self) = lock_timeout_of ctx self"
    by (simp add: begin_op_simps lock_timeout_of_def)
  have fo: "bad \<longrightarrow> fst (migrate_Force E (LockTimeout (begin_op ctx self)) (go_int c)
                           (migrator (begin_op ctx self))) = None"
    using assms(2) by (auto simp add: forced_def lt begin_op_simps(1-4) split: if_splits)
  have m: "(if bad then snd (migrate_Force E (LockTimeout (begin_op ctx self)) (go_int c)
                               (migrator (begin_op ctx self)))
            else migrator (begin_op ctx self)) = m"
    using assms(2) by (auto simp add: forced_def lt begin_op_simps(1-4) split: if_splits)
  note f = Rollback_logic_eval [OF v fo, of d, unfolded m]
  have r: "result (Rollback E ctx d self) =
             switch (Returns (fst (Rollback_logic E d (begin_op ctx self))))"
    using assms(3) by (simp add: Rollback_def envelope_result)
  have a: "migrator (at_return (Rollback E ctx d self)) =
             migrator (snd (Rollback_logic E d (begin_op ctx self)))"
    using assms(3) by (simp add: Rollback_def envelope_at_return)
  show ?thesis
    by (auto simp add: r a f lt generic_simps switch_simps split: option.splits)
qed

theorem Rollback_decides_witness:
  "result (Rollback mem in_time 1 (mem_migrator 2 True)) = Returns None \<and>
   migrator (at_return (Rollback mem in_time 1 (mem_migrator 2 True))) = mem_db0 1 False \<and>
   result (Rollback mem in_time 2 (mem_migrator 2 True)) = Returns None \<and>
   migrator (at_return (Rollback mem in_time 2 (mem_migrator 2 True))) = mem_db0 2 False \<and>
   result (Rollback mem in_time 3 (mem_migrator 2 False)) =
     Returns (Some (Wrap ErrMigratorGeneric
       (Withf ErrMigratorGeneric ''desired schema version %d ahead of current one %d''
          [I 3, I 2])))"
proof -
  have v: "migrate_Version mem (migrator (mem_migrator 2 True)) = (2, True, None)"
          "migrate_Version mem (migrator (mem_migrator 2 False)) = (2, False, None)"
    by (simp_all add: mem_simps mem_migrator_def mem_db0_def mem_Version_def)
  have fo: "forced mem in_time 2 True (mem_migrator 2 True) = (None, mem_db0 2 False)"
           "forced mem in_time 2 False (mem_migrator 2 False) = (None, mem_db0 2 False)"
    by (simp_all add: forced_def mem_simps mem_Force_def go_int_def mem_migrator_def mem_db0_def)
  have g: "(go_uint 1 :: 64 word) = 1" "(go_uint 2 :: 64 word) = 2" "(go_uint 3 :: 64 word) = 3"
    by (simp_all add: go_uint_def)
  have m: "mem_Migrate (lock_timeout_of in_time (mem_migrator 2 True)) 1 (mem_db0 2 False) =
             (None, mem_db0 1 False)"
    by (simp add: mem_Migrate_def lock_timeout_of_def ctx_simps mem_db0_def)
  have t: "\<not> fires_first in_time" by (simp add: ctx_simps)
  show ?thesis
    using Rollback_decides [where E = mem and d = 1, OF v(1) fo(1) t]
      Rollback_decides [where E = mem and d = 2, OF v(1) fo(1) t]
      Rollback_decides [where E = mem and d = 3, OF v(2) fo(2) t]
    by (simp add: g m mem_simps)
qed

section \<open>A database with no version yet\<close>

text \<open>
  C4.  On a database with no version yet the engine answers the read of the version
  with version 0 and the sentinel.  Assert(0) and Apply(0) take that for version 0 and
  succeed; Rollback(0) does not: it fails Generic, wrapping the sentinel.
\<close>

theorem Rollback_nil_version:
  "result (Rollback mem no_deadline 0 (mem_migrator (- 1) False)) =
     Returns (Some (Wrap ErrMigratorGeneric (WrapAs ErrMigratorGeneric (Ext ErrNilVersion)))) \<and>
   result (Assert mem no_deadline 0 (mem_migrator (- 1) False)) = Returns None \<and>
   result (Apply mem no_deadline 0 (mem_migrator (- 1) False)) = Returns None"
proof -
  have v: "migrate_Version mem (migrator (begin_op no_deadline (mem_migrator (- 1) False))) =
             (0, False, Some ErrNilVersion)"
    by (simp add: begin_op_simps mem_simps mem_migrator_def mem_db0_def mem_Version_def)
  have g: "(go_uint 0 :: 64 word) = 0" by (simp add: go_uint_def)
  have 1: "fst (Rollback_logic mem 0 (begin_op no_deadline (mem_migrator (- 1) False))) =
             Some (WrapAs ErrMigratorGeneric (Ext ErrNilVersion))"
    by (simp add: Rollback_logic_def v)
  have 2: "fst (Assert_logic mem 0 (begin_op no_deadline (mem_migrator (- 1) False))) = None"
    by (simp add: Assert_logic_fst [OF v] g)
  have 3: "fst (Apply_logic mem 0 (begin_op no_deadline (mem_migrator (- 1) False))) = None"
    by (simp add: Apply_logic_eval [OF v] g)
  show ?thesis
    by (simp add: Rollback_def Assert_def Apply_def envelope_result ctx_simps 1 2 3
          generic_simps switch_simps)
qed

section \<open>Negative desired versions\<close>

lemma go_uint_negative:
  assumes "- (2 ^ (LENGTH('w::len) - 1)) \<le> v" and "v < 0"
  shows "uint (go_uint v :: 'w word) = v + 2 ^ LENGTH('w)"
proof -
  have p: "(2::int) ^ LENGTH('w) = 2 * 2 ^ (LENGTH('w) - 1)"
    by (metis len_gt_0 power_eq_if less_numeral_extra(3))
  have "uint (go_uint v :: 'w word) = v mod 2 ^ LENGTH('w)"
    by (simp add: go_uint_def uint_word_of_int)
  also have "\<dots> = (v + 2 ^ LENGTH('w)) mod 2 ^ LENGTH('w)" by simp
  also have "\<dots> = v + 2 ^ LENGTH('w)"
    using assms p by (intro mod_pos_pos_trivial) auto
  finally show ?thesis .
qed

lemma go_uint_negative_above:
  fixes c :: "'w::len word"
  assumes "- (2 ^ (LENGTH('w) - 1)) \<le> v" and "v < 0" and "uint c < 2 ^ (LENGTH('w) - 1)"
  shows "c < go_uint v"
proof -
  have p: "(2::int) ^ LENGTH('w) = 2 * 2 ^ (LENGTH('w) - 1)"
    by (metis len_gt_0 power_eq_if less_numeral_extra(3))
  have "uint c < uint (go_uint v :: 'w word)"
    using assms p by (simp add: go_uint_negative)
  then show ?thesis by (simp add: word_less_def)
qed

lemma go_uint_nonneg:
  assumes "0 \<le> v" and "v < 2 ^ (LENGTH('w::len) - 1)"
  shows "uint (go_uint v :: 'w word) = v"
proof -
  have p: "(2::int) ^ LENGTH('w) = 2 * 2 ^ (LENGTH('w) - 1)"
    by (metis len_gt_0 power_eq_if less_numeral_extra(3))
  have "uint (go_uint v :: 'w word) = v mod 2 ^ LENGTH('w)"
    by (simp add: go_uint_def uint_word_of_int)
  also have "\<dots> = v" using assms p by (intro mod_pos_pos_trivial) auto
  finally show ?thesis .
qed

text \<open>
  C9.  A negative desired version \<open>v\<close> is not rejected: it is converted to \<open>uint\<close>, which
  is \<open>v mod 2 ^ w\<close>, that is \<open>v + 2 ^ w\<close>, a value of at least \<open>2 ^ (w - 1)\<close>, above every
  current version that fits a non-negative \<open>int\<close>; and \<open>uint(-1)\<close> is above every current
  version but the largest.  With such a current version \<open>c\<close>, reported with a flag that is
  not set, Assert and Rollback fail Generic with the ahead message and Apply runs the
  engine's migrate-to with \<open>uint(v)\<close>.
\<close>

theorem negative_version_wraps:
  fixes E :: "('w::len word, 'e) env" and c :: "'w word"
  assumes "- (2 ^ (LENGTH('w) - 1)) \<le> v" and "v < 0"
  shows
  "uint (go_uint v :: 'w word) = v mod 2 ^ LENGTH('w) \<and>
   uint (go_uint v :: 'w word) = v + 2 ^ LENGTH('w) \<and>
   (2::int) ^ (LENGTH('w) - 1) \<le> uint (go_uint v :: 'w word) \<and>
   (c \<noteq> - 1 \<longrightarrow> c < go_uint (- 1)) \<and>
   (uint c < 2 ^ (LENGTH('w) - 1) \<longrightarrow> c < go_uint v) \<and>
   (migrate_Version E (migrator self) = (c, False, None) \<and> \<not> fires_first ctx \<and> c < go_uint v \<longrightarrow>
      result (Assert E ctx v self) =
        Returns (Some (Wrap ErrMigratorGeneric
          (Withf ErrMigratorGeneric ''desired schema version %d ahead of current one %d''
             [I v, I (uint c)]))) \<and>
      result (Rollback E ctx v self) =
        Returns (Some (Wrap ErrMigratorGeneric
          (Withf ErrMigratorGeneric ''desired schema version %d ahead of current one %d''
             [I v, I (uint c)]))) \<and>
      result (Apply E ctx v self) =
        (case fst (migrate_Migrate E (lock_timeout_of ctx self) (go_uint v) (migrator self)) of
           None \<Rightarrow> Returns None
         | Some e \<Rightarrow>
             Returns (Some (Wrap ErrMigratorGeneric (WrapAs ErrMigratorGeneric (Ext e))))))"
proof (intro conjI impI)
  show "uint (go_uint v :: 'w word) = v mod 2 ^ LENGTH('w)"
    by (simp add: go_uint_def uint_word_of_int)
  show "uint (go_uint v :: 'w word) = v + 2 ^ LENGTH('w)"
    using assms by (rule go_uint_negative)
  have p: "(2::int) ^ LENGTH('w) = 2 * 2 ^ (LENGTH('w) - 1)"
    by (metis len_gt_0 power_eq_if less_numeral_extra(3))
  show "(2::int) ^ (LENGTH('w) - 1) \<le> uint (go_uint v :: 'w word)"
    using assms p by (simp add: go_uint_negative)
  show "c < go_uint (- 1)" if "c \<noteq> - 1"
    using that by (simp add: go_uint_def word_order.not_eq_extremum)
  show "c < go_uint v" if "uint c < 2 ^ (LENGTH('w) - 1)"
    using assms that by (rule go_uint_negative_above)
next
  assume h: "migrate_Version E (migrator self) = (c, False, None) \<and> \<not> fires_first ctx \<and>
             c < go_uint v"
  then have v: "migrate_Version E (migrator (begin_op ctx self)) = (c, False, None)"
    by (simp add: begin_op_simps)
  have n: "\<not> go_uint v < c" "c \<noteq> go_uint v" using h by auto
  have lt: "LockTimeout (begin_op ctx self) = lock_timeout_of ctx self"
    by (simp add: begin_op_simps lock_timeout_of_def)
  show "result (Assert E ctx v self) =
        Returns (Some (Wrap ErrMigratorGeneric
          (Withf ErrMigratorGeneric ''desired schema version %d ahead of current one %d''
             [I v, I (uint c)])))"
    using h n by (simp add: Assert_def envelope_result Assert_logic_fst [OF v]
                    generic_simps switch_simps)
  show "result (Rollback E ctx v self) =
        Returns (Some (Wrap ErrMigratorGeneric
          (Withf ErrMigratorGeneric ''desired schema version %d ahead of current one %d''
             [I v, I (uint c)])))"
    using h n by (simp add: Rollback_def envelope_result Rollback_logic_eval(1) [OF v]
                    generic_simps switch_simps)
  show "result (Apply E ctx v self) =
        (case fst (migrate_Migrate E (lock_timeout_of ctx self) (go_uint v) (migrator self)) of
           None \<Rightarrow> Returns None
         | Some e \<Rightarrow>
             Returns (Some (Wrap ErrMigratorGeneric (WrapAs ErrMigratorGeneric (Ext e)))))"
    using h n by (simp add: Apply_def envelope_result Apply_logic_eval [OF v] lt
                    generic_simps switch_simps begin_op_simps(1-4) split: option.splits)
qed

theorem negative_version_wraps_witness:
  "uint (go_uint (- 1) :: 64 word) = 18446744073709551615 \<and>
   result (Assert mem in_time (- 1) (mem_migrator 3 False)) =
     Returns (Some (Wrap ErrMigratorGeneric
       (Withf ErrMigratorGeneric ''desired schema version %d ahead of current one %d''
          [I (- 1), I 3])))"
proof -
  have v: "migrate_Version mem (migrator (mem_migrator 3 False)) = (3, False, None)"
    by (simp add: mem_simps mem_migrator_def mem_db0_def mem_Version_def)
  have a: "- (2 ^ (LENGTH(64) - 1)) \<le> (- 1 :: int)" and b: "(- 1 :: int) < 0" by simp_all
  have t: "\<not> fires_first in_time" by (simp add: ctx_simps)
  have l: "(3 :: 64 word) < go_uint (- 1)" by (simp add: go_uint_def)
  show ?thesis
    using negative_version_wraps [where E = mem and c = 3 and self = "mem_migrator 3 False"
        and ctx = in_time, OF a b] v t l
    by simp
qed

section \<open>The deadline envelope\<close>

lemma Assert_logic_kind:
  "\<forall>e. fst (Assert_logic E d s) = Some e \<longrightarrow> (\<exists>m c. e = Kit MigratorGeneric m c)"
  by (auto simp add: Assert_logic_def generic_simps split: prod.splits if_splits)

lemma Apply_logic_kind:
  "\<forall>e. fst (Apply_logic E d s) = Some e \<longrightarrow> (\<exists>m c. e = Kit MigratorGeneric m c)"
  by (auto simp add: Apply_logic_def generic_simps Let_def split: prod.splits if_splits option.splits)

lemma Rollback_logic_kind:
  "\<forall>e. fst (Rollback_logic E d s) = Some e \<longrightarrow> (\<exists>m c. e = Kit MigratorGeneric m c)"
  by (auto simp add: Rollback_logic_def generic_simps Let_def split: prod.splits if_splits option.splits)

lemma switch_generic:
  "\<exists>m c. e = Kit MigratorGeneric m c \<Longrightarrow>
     switch (Returns (Some e)) = Returns (Some (Wrap ErrMigratorGeneric e))"
  by (auto simp add: switch_simps)

lemma switch_other:
  "\<not> Is ErrDeadlineExceeded e \<Longrightarrow>
     switch (Returns (Some e)) = Returns (Some (Wrap ErrMigratorGeneric e))"
  by (simp add: switch_def)

lemma envelope_classifies:
  assumes "\<forall>e. fst (f s0) = Some e \<longrightarrow> (\<exists>m c. e = Kit MigratorGeneric m c)"
  shows "(fires_first c \<longrightarrow>
            result (end_op E (Deadline c [logic_step f, release_step] s0)) =
              Returns (Some ErrMigratorTimedOut)) \<and>
         (\<not> fires_first c \<longrightarrow>
            (\<forall>e s. inner (end_op E (Deadline c [logic_step f, release_step] s0)) = Done (Some e) s \<longrightarrow>
               result (end_op E (Deadline c [logic_step f, release_step] s0)) =
                 Returns (Some (Wrap ErrMigratorGeneric e))) \<and>
            (\<forall>s. inner (end_op E (Deadline c [logic_step f, release_step] s0)) = Done None s \<longrightarrow>
               result (end_op E (Deadline c [logic_step f, release_step] s0)) = Returns None))"
  using assms by (auto simp add: envelope_result envelope_inner switch_generic switch_simps)

text \<open>The inner task of Close, run from the start.\<close>

lemma Close_run_busy:
  assumes "\<not> idle (done_ch self)"
  shows "run n [closing_step E, receive_step, engine_close_step E] \<lparr>l_err = None, l_chan = None\<rparr> self =
     (if n = 0
      then (\<lparr>rest = [closing_step E, receive_step, engine_close_step E],
             vars = \<lparr>l_err = None, l_chan = None\<rparr>\<rparr>, self)
      else if n = 1
      then (\<lparr>rest = [receive_step, engine_close_step E],
             vars = \<lparr>l_err = None, l_chan = None\<rparr>\<rparr>,
            self\<lparr>observer := Info ''Closing migrator'' (observer self),
                 migrator := migrate_GracefulStop E (migrator self)\<rparr>)
      else (\<lparr>rest = [receive_step, engine_close_step E],
             vars = \<lparr>l_err = None, l_chan = Some (ident (done_ch self))\<rparr>\<rparr>,
            self\<lparr>observer := Info ''Closing migrator'' (observer self),
                 migrator := migrate_GracefulStop E (migrator self)\<rparr>))"
proof (cases n)
  case 0
  then show ?thesis by simp
next
  case (Suc m)
  show ?thesis
  proof (cases m)
    case 0
    with Suc show ?thesis by (simp add: closing_step_def)
  next
    case (Suc k)
    with \<open>n = Suc m\<close> assms show ?thesis
      by (simp add: closing_step_def receive_step_def idle_def)
  qed
qed

lemma Close_run_idle:
  assumes "idle (done_ch self)"
      and "migrate_Close E (migrate_GracefulStop E (migrator self)) = ((errS, errD), m')"
  shows "\<exists>s. run (Suc (Suc (Suc 0))) [closing_step E, receive_step, engine_close_step E]
               \<lparr>l_err = None, l_chan = None\<rparr> self =
             (\<lparr>rest = [],
               vars = \<lparr>l_err = map_option (WrapAs ErrMigratorGeneric)
                                  (CombineErrors errS (benign E errD)),
                       l_chan = None\<rparr>\<rparr>, s) \<and>
             migrator s = m'"
  using assms
  by (auto simp add: closing_step_def receive_step_def engine_close_step_def idle_def
        split: option.splits)

lemma Close_inner:
  "inner (Close E c self) =
     task_of (run (Suc (Suc (Suc 0))) [closing_step E, receive_step, engine_close_step E]
                \<lparr>l_err = None, l_chan = None\<rparr> self)"
  by (simp add: Close_def Deadline_def Let_def)

lemma Close_result:
  "result (Close E c self) =
     (if fires_first c then Returns (Some ErrMigratorTimedOut)
      else (case inner (Close E c self) of
              Done err s \<Rightarrow> switch (Returns err)
            | Blocked s \<Rightarrow> Hangs))"
  by (simp add: Close_def Deadline_def Let_def switch_simps split: task.splits)

lemma Close_at_return:
  "at_return (Close E c self) =
     snd (run (if fires_first c then progress c else Suc (Suc (Suc 0)))
            [closing_step E, receive_step, engine_close_step E] \<lparr>l_err = None, l_chan = None\<rparr> self)"
  by (simp add: Close_def Deadline_def Let_def)

lemma Close_left:
  "left (Close E c self) =
     fst (run (if fires_first c then progress c else Suc (Suc (Suc 0)))
            [closing_step E, receive_step, engine_close_step E] \<lparr>l_err = None, l_chan = None\<rparr> self)"
  by (simp add: Close_def Deadline_def Let_def)

lemma Close_kind:
  assumes "inner (Close E c self) = Done (Some e) s"
  shows "\<exists>m k. e = Kit MigratorGeneric m k"
proof (cases "idle (done_ch self)")
  case False
  from Close_run_busy [OF False, of "Suc (Suc (Suc 0))" E] assms show ?thesis
    by (simp add: Close_inner task_of_def del: run.simps)
next
  case True
  obtain errS errD m' where
    "migrate_Close E (migrate_GracefulStop E (migrator self)) = ((errS, errD), m')"
    by (metis surj_pair)
  from Close_run_idle [OF True this] assms show ?thesis
    by (auto simp add: Close_inner task_of_def generic_simps simp del: run.simps)
qed

lemma NewMigrator_late:
  "fires_first c \<Longrightarrow> NewMigrator E c obs cfg retry = Returns (Inl ErrMigratorTimedOut)"
  by (simp add: NewMigrator_def Deadline_def Let_def switch_simps)

lemma NewMigrator_fails:
  "\<not> fires_first c \<Longrightarrow> connect E cfg retry (None, obs) = Done (Some e) s \<Longrightarrow>
   \<not> Is ErrDeadlineExceeded e \<Longrightarrow>
   NewMigrator E c obs cfg retry = Returns (Inl (Wrap ErrMigratorGeneric e))"
  by (simp add: NewMigrator_def Deadline_def Let_def task_step_def task_of_def switch_other)

text \<open>
  C5.  For the connection, Assert, Apply, Rollback and Close alike: when the context ends
  before the inner task has delivered its result, the operation reports TimedOut,
  whatever the inner task makes of it, and TimedOut is not a Generic failure.  When the
  context does not end first, a failure \<open>e\<close> of the inner task is reported as the
  Generic failure that wraps \<open>e\<close>.  (The inner task of the connection is the retry helper,
  a parameter here: its failure is wrapped unless it is itself an exceeded deadline.)
\<close>

theorem envelope_classification:
  fixes E :: "('w::len word, 'e) env"
  shows
  "(fires_first c \<longrightarrow>
      NewMigrator E c obs cfg retry = Returns (Inl ErrMigratorTimedOut) \<and>
      result (Assert E c d self) = Returns (Some ErrMigratorTimedOut) \<and>
      result (Apply E c d self) = Returns (Some ErrMigratorTimedOut) \<and>
      result (Rollback E c d self) = Returns (Some ErrMigratorTimedOut) \<and>
      result (Close E c self) = Returns (Some ErrMigratorTimedOut)) \<and>
   \<not> Is ErrMigratorGeneric ErrMigratorTimedOut \<and>
   (\<not> fires_first c \<longrightarrow>
      (\<forall>e s. connect E cfg retry (None, obs) = Done (Some e) s \<and> \<not> Is ErrDeadlineExceeded e \<longrightarrow>
         NewMigrator E c obs cfg retry = Returns (Inl (Wrap ErrMigratorGeneric e))) \<and>
      (\<forall>e s. inner (Assert E c d self) = Done (Some e) s \<longrightarrow>
         result (Assert E c d self) = Returns (Some (Wrap ErrMigratorGeneric e))) \<and>
      (\<forall>e s. inner (Apply E c d self) = Done (Some e) s \<longrightarrow>
         result (Apply E c d self) = Returns (Some (Wrap ErrMigratorGeneric e))) \<and>
      (\<forall>e s. inner (Rollback E c d self) = Done (Some e) s \<longrightarrow>
         result (Rollback E c d self) = Returns (Some (Wrap ErrMigratorGeneric e))) \<and>
      (\<forall>e s. inner (Close E c self) = Done (Some e) s \<longrightarrow>
         result (Close E c self) = Returns (Some (Wrap ErrMigratorGeneric e))))"
proof -
  note a = envelope_classifies [of "Assert_logic E d" "begin_op c self" c E,
             OF Assert_logic_kind, folded Assert_def]
  note b = envelope_classifies [of "Apply_logic E d" "begin_op c self" c E,
             OF Apply_logic_kind, folded Apply_def]
  note r = envelope_classifies [of "Rollback_logic E d" "begin_op c self" c E,
             OF Rollback_logic_kind, folded Rollback_def]
  have cl1: "result (Close E c self) = Returns (Some ErrMigratorTimedOut)" if "fires_first c"
    using that by (simp add: Close_result)
  have cl2: "result (Close E c self) = Returns (Some (Wrap ErrMigratorGeneric e))"
    if "\<not> fires_first c" and "inner (Close E c self) = Done (Some e) s" for e s
    using that Close_kind [of E c self e s]
    by (auto simp add: Close_result switch_simps)
  have k: "\<not> Is ErrMigratorGeneric ErrMigratorTimedOut"
    by (simp add: ErrMigratorGeneric_def ErrMigratorTimedOut_def)
  show ?thesis
    using a b r cl1 cl2 k NewMigrator_late [of c E obs cfg retry]
      NewMigrator_fails [of c E cfg retry obs]
    by blast
qed

theorem envelope_classification_witness:
  "result (Apply mem too_late 3 (mem_migrator 0 False)) = Returns (Some ErrMigratorTimedOut) \<and>
   result (Apply mem in_time 3 (mem_migrator 2 True)) =
     Returns (Some (Wrap ErrMigratorGeneric
       (Withf ErrMigratorGeneric ''current schema version %d is dirty'' [I 2])))"
proof -
  have v: "migrate_Version mem (migrator (begin_op in_time (mem_migrator 2 True))) = (2, True, None)"
    by (simp add: begin_op_simps mem_simps mem_migrator_def mem_db0_def mem_Version_def)
  have i: "\<exists>s. inner (Apply mem in_time 3 (mem_migrator 2 True)) =
     Done (Some (Withf ErrMigratorGeneric ''current schema version %d is dirty'' [I 2])) s"
    by (simp add: Apply_def envelope_inner Apply_logic_eval [OF v])
  have 1: "result (Apply mem too_late 3 (mem_migrator 0 False)) = Returns (Some ErrMigratorTimedOut)"
    using envelope_classification [where E = mem and c = too_late and d = 3
        and self = "mem_migrator 0 False"]
    by (simp add: ctx_simps)
  have 2: "result (Apply mem in_time 3 (mem_migrator 2 True)) =
     Returns (Some (Wrap ErrMigratorGeneric
       (Withf ErrMigratorGeneric ''current schema version %d is dirty'' [I 2])))"
    using envelope_classification [where E = mem and c = in_time and d = 3
        and self = "mem_migrator 2 True"] i
    by (auto simp add: ctx_simps)
  from 1 2 show ?thesis by simp
qed

section \<open>Close\<close>

lemma CombineErrors_None: "(CombineErrors a b = None) = (a = None \<and> b = None)"
  by (cases a; cases b) simp_all

lemma Close_idle_result:
  assumes "idle (done_ch self)"
      and "\<not> fires_first c"
      and "migrate_Close E (migrate_GracefulStop E (migrator self)) = ((errS, errD), m')"
  shows "result (Close E c self) =
           switch (Returns (map_option (WrapAs ErrMigratorGeneric)
                              (CombineErrors errS (benign E errD))))"
    and "migrator (at_return (Close E c self)) = m'"
    and "rest (left (Close E c self)) = []"
proof -
  from Close_run_idle [OF assms(1) assms(3)] obtain s where
    r: "run (Suc (Suc (Suc 0))) [closing_step E, receive_step, engine_close_step E]
          \<lparr>l_err = None, l_chan = None\<rparr> self =
        (\<lparr>rest = [],
          vars = \<lparr>l_err = map_option (WrapAs ErrMigratorGeneric)
                             (CombineErrors errS (benign E errD)),
                  l_chan = None\<rparr>\<rparr>, s)"
    and m: "migrator s = m'"
    by blast
  show "result (Close E c self) =
           switch (Returns (map_option (WrapAs ErrMigratorGeneric)
                              (CombineErrors errS (benign E errD))))"
    using assms(2) by (simp add: Close_result Close_inner r task_of_def del: run.simps)
  show "migrator (at_return (Close E c self)) = m'"
    using assms(2) by (simp add: Close_at_return r m del: run.simps)
  show "rest (left (Close E c self)) = []"
    using assms(2) by (simp add: Close_left r del: run.simps)
qed

text \<open>
  C7.  Let Close find the gate idle, let the deadline not pass first, and let the engine's
  close yield the source-side error \<open>errS\<close> and the database-side error \<open>errD\<close>.  A
  database-side error whose text matches the pattern \<open>.*connection is already closed.*\<close>
  is dropped: Close then succeeds when there is no source-side error and fails Generic on
  the source-side error alone otherwise.  A database-side error that does not match is
  kept: Close fails Generic, wrapping the combination of the source-side error, if any,
  and the database-side error.  With no database-side error Close succeeds when there is
  no source-side error and fails Generic on it otherwise.  So Close succeeds if and only
  if there is no source-side error and the database-side error is absent or matches the
  pattern.  The engine's close has been called in each case.
\<close>

theorem Close_tolerates_closed:
  fixes E :: "('w::len word, 'e) env"
  assumes "idle (done_ch self)"
      and "\<not> fires_first c"
      and "migrate_Close E (migrate_GracefulStop E (migrator self)) = ((errS, errD), m')"
  shows
  "result (Close E c self) =
     (case errD of
        None \<Rightarrow>
          (case errS of
             None \<Rightarrow> Returns None
           | Some a \<Rightarrow>
               Returns (Some (Wrap ErrMigratorGeneric (WrapAs ErrMigratorGeneric (Combined [a])))))
      | Some d \<Rightarrow>
          if regexp_MatchString E MIGRATOR_ERR_DB_ALREADY_CLOSED (Error_text d)
          then (case errS of
                  None \<Rightarrow> Returns None
                | Some a \<Rightarrow>
                    Returns (Some (Wrap ErrMigratorGeneric
                      (WrapAs ErrMigratorGeneric (Combined [a])))))
          else (case errS of
                  None \<Rightarrow>
                    Returns (Some (Wrap ErrMigratorGeneric
                      (WrapAs ErrMigratorGeneric (Combined [d]))))
                | Some a \<Rightarrow>
                    Returns (Some (Wrap ErrMigratorGeneric
                      (WrapAs ErrMigratorGeneric (Combined [a, d])))))) \<and>
   ((result (Close E c self) = Returns None) =
      (errS = None \<and>
       (errD = None \<or>
        (\<exists>d. errD = Some d \<and>
             regexp_MatchString E MIGRATOR_ERR_DB_ALREADY_CLOSED (Error_text d))))) \<and>
   migrator (at_return (Close E c self)) = m'"
proof -
  note r = Close_idle_result(1) [OF assms]
  have 1: "result (Close E c self) =
     (case errD of
        None \<Rightarrow>
          (case errS of
             None \<Rightarrow> Returns None
           | Some a \<Rightarrow>
               Returns (Some (Wrap ErrMigratorGeneric (WrapAs ErrMigratorGeneric (Combined [a])))))
      | Some d \<Rightarrow>
          if regexp_MatchString E MIGRATOR_ERR_DB_ALREADY_CLOSED (Error_text d)
          then (case errS of
                  None \<Rightarrow> Returns None
                | Some a \<Rightarrow>
                    Returns (Some (Wrap ErrMigratorGeneric
                      (WrapAs ErrMigratorGeneric (Combined [a])))))
          else (case errS of
                  None \<Rightarrow>
                    Returns (Some (Wrap ErrMigratorGeneric
                      (WrapAs ErrMigratorGeneric (Combined [d]))))
                | Some a \<Rightarrow>
                    Returns (Some (Wrap ErrMigratorGeneric
                      (WrapAs ErrMigratorGeneric (Combined [a, d]))))))"
    by (cases errS; cases errD) (simp_all add: r benign_def generic_simps switch_simps)
  have 2: "(result (Close E c self) = Returns None) =
      (errS = None \<and>
       (errD = None \<or>
        (\<exists>d. errD = Some d \<and>
             regexp_MatchString E MIGRATOR_ERR_DB_ALREADY_CLOSED (Error_text d))))"
    by (cases errS; cases errD) (simp_all add: 1 generic_simps)
  from 1 2 Close_idle_result(2) [OF assms] show ?thesis by simp
qed

theorem Close_tolerates_closed_witness:
  "result (Close mem in_time closed_migrator) = Returns None \<and>
   result (Close mem_failing in_time (mem_migrator 2 False)) =
     Returns (Some (Wrap ErrMigratorGeneric (WrapAs ErrMigratorGeneric
       (Combined [ExtError ''source: close failed'', ExtError ''pq: connection reset by peer'']))))"
proof -
  have i: "idle (done_ch closed_migrator)" "idle (done_ch (mem_migrator 2 False))"
    by (simp_all add: closed_migrator_def mem_migrator_def idle_def recv_def close_chan_def
          make_chan_def)
  have t: "\<not> fires_first in_time" by (simp add: ctx_simps)
  have cl: "migrate_Close mem (migrate_GracefulStop mem (migrator closed_migrator)) =
     ((None, Some (ExtError ''sql: connection is already closed'')),
      (mem_db0 2 False)\<lparr>db_open := False, db_stopping := True\<rparr>)"
    by (simp add: mem_simps closed_migrator_def mem_Close_def mem_db0_def)
  have cf: "migrate_Close mem_failing (migrate_GracefulStop mem_failing (migrator (mem_migrator 2 False))) =
     ((Some (ExtError ''source: close failed''), Some (ExtError ''pq: connection reset by peer'')),
      (mem_db0 2 False)\<lparr>db_stopping := True, db_open := False\<rparr>)"
    by (simp add: mem_failing_def mem_simps mem_migrator_def mem_db0_def)
  have m: "regexp_MatchString mem MIGRATOR_ERR_DB_ALREADY_CLOSED
             (Error_text (ExtError ''sql: connection is already closed''))"
    by (simp add: mem_simps mem_MatchString_def)
  have n: "\<not> regexp_MatchString mem_failing MIGRATOR_ERR_DB_ALREADY_CLOSED
             (Error_text (ExtError ''pq: connection reset by peer''))"
    by (simp add: mem_failing_def mem_simps mem_MatchString_def)
  have 1: "result (Close mem in_time closed_migrator) = Returns None"
    using Close_tolerates_closed [OF i(1) t cl] m by simp
  have 2: "result (Close mem_failing in_time (mem_migrator 2 False)) =
     Returns (Some (Wrap ErrMigratorGeneric (WrapAs ErrMigratorGeneric
       (Combined [ExtError ''source: close failed'', ExtError ''pq: connection reset by peer'']))))"
    using Close_tolerates_closed [OF i(2) t cf] n by simp
  from 1 2 show ?thesis by simp
qed

section \<open>The gate\<close>











section \<open>Close and the gate\<close>









section \<open>The localizer's pattern\<close>

lemma NewLocalizer_overwrites:
  "NewLocalizer L obs (cfg\<lparr>LocaleExtensions := x\<rparr>) = NewLocalizer L obs cfg"
  by (cases cfg) (simp add: NewLocalizer_def Let_def split: ret.splits sum.splits prod.splits)

lemma NewLocalizer_config:
  assumes "NewLocalizer L obs cfg = Returns (Inr l)"
  shows "LocaleExtensions (lconfig l) = Some LOCALIZER_DEFAULT_LOCALE_EXTENSIONS"
    and "\<exists>p. LocalesPath (lconfig l) = Some p \<and>
           getCopies L obs p (Some LOCALIZER_DEFAULT_LOCALE_EXTENSIONS) =
             Returns (Inr (lcopies l), lobserver l)"
  using assms
  by (auto simp add: NewLocalizer_def Let_def split: ret.splits sum.splits prod.splits if_splits)

lemma Refresh_config:
  "Refresh L l = Returns (r, l') \<Longrightarrow> lconfig l' = lconfig l"
  by (auto simp add: Refresh_def split: option.splits ret.splits sum.splits prod.splits)

lemma Refresh_n_config:
  "Refresh_n L n l = Returns l' \<Longrightarrow> lconfig l' = lconfig l"
proof (induction n arbitrary: l)
  case 0
  then show ?case by simp
next
  case (Suc n)
  then show ?case
    by (auto split: ret.splits dest: Refresh_config)
qed

lemma Refresh_default:
  assumes "LocaleExtensions (lconfig l) = Some LOCALIZER_DEFAULT_LOCALE_EXTENSIONS"
      and "LocalesPath (lconfig l) = Some p"
  shows "Refresh L l =
     (case getCopies L (lobserver l) p (Some LOCALIZER_DEFAULT_LOCALE_EXTENSIONS) of
        Returns (Inl err, obs') \<Rightarrow>
          Returns (Some (Wrap ErrLocalizerGeneric err), l\<lparr>lobserver := obs'\<rparr>)
      | Returns (Inr copiesByLang, obs') \<Rightarrow>
          Returns (None, l\<lparr>lobserver := obs', lcopies := copiesByLang\<rparr>)
      | Panics \<Rightarrow> Panics
      | Hangs \<Rightarrow> Hangs)"
  using assms by (simp add: Refresh_def)

lemma walk_fn_cases:
  assumes "walk_fn L (Some re) path info err acc = Returns (Inr acc')"
  shows "acc' = acc \<or>
     (\<exists>lang copies. loaded_from L re (path, info, err) lang \<and> acc' = AList.update lang copies acc)"
proof (cases err)
  case (Some e)
  with assms show ?thesis by (simp add: walk_fn_def)
next
  case None
  show ?thesis
  proof (cases "IsDir info \<or> \<not> regexp_MatchString L re (Name info)")
    case True
    with assms None have "acc' = acc" by (cases "IsDir info") (simp_all add: walk_fn_def)
    then show ?thesis by simp
  next
    case False
    let ?n = "take (length (Name info) - length (filepath_Ext L (Name info))) (Name info)"
    show ?thesis
    proof (cases "language_Parse L ?n")
      case (Inl e)
      with assms None False show ?thesis by (simp add: walk_fn_def)
    next
      case (Inr lang)
      then have lf: "loaded_from L re (path, info, err) lang"
        using False by (simp add: loaded_from_def)
      show ?thesis
      proof (cases "ioutil_ReadFile L path")
        case (Inl e)
        with assms None False Inr show ?thesis by (simp add: walk_fn_def)
      next
        case rd: (Inr contents)
        show ?thesis
        proof (cases "yaml_Unmarshal L contents")
          case (Inl e)
          with assms None False Inr rd show ?thesis by (simp add: walk_fn_def)
        next
          case um: (Inr copies)
          with assms None False Inr rd have "acc' = AList.update lang copies acc"
            by (simp add: walk_fn_def)
          with lf show ?thesis by blast
        qed
      qed
    qed
  qed
qed

lemma walk_fn_keys:
  assumes "walk_fn L (Some re) path info err acc = Returns (Inr acc')"
      and "t \<in> fst ` set acc'"
  shows "t \<in> fst ` set acc \<or> loaded_from L re (path, info, err) t"
proof -
  from walk_fn_cases [OF assms(1)] show ?thesis
  proof
    assume "acc' = acc"
    with assms(2) show ?thesis by simp
  next
    assume "\<exists>lang copies. loaded_from L re (path, info, err) lang \<and>
              acc' = AList.update lang copies acc"
    then obtain lang copies where
      1: "loaded_from L re (path, info, err) lang" and 2: "acc' = AList.update lang copies acc"
      by blast
    have "fst ` set acc' = {lang} \<union> fst ` set acc"
      by (simp add: 2 dom_update)
    with assms(2) have "t = lang \<or> t \<in> fst ` set acc" by simp
    with 1 show ?thesis by (elim disjE) simp_all
  qed
qed

lemma walk_keys:
  assumes "walk L (Some re) vs acc = Returns (Inr acc')"
      and "t \<in> fst ` set acc'"
  shows "t \<in> fst ` set acc \<or> (\<exists>v \<in> set vs. loaded_from L re v t)"
  using assms
proof (induction vs arbitrary: acc)
  case Nil
  then show ?case by simp
next
  case (Cons v vs)
  obtain path info err where v: "v = (path, info, err)" by (cases v)
  from Cons.prems(1) obtain acc1 where
    1: "walk_fn L (Some re) path info err acc = Returns (Inr acc1)" and
    2: "walk L (Some re) vs acc1 = Returns (Inr acc')"
    by (auto simp add: v split: ret.splits sum.splits)
  from Cons.IH [OF 2 Cons.prems(2)] show ?case
  proof
    assume "t \<in> fst ` set acc1"
    with walk_fn_keys [OF 1] show ?thesis by (auto simp add: v)
  next
    assume "\<exists>v \<in> set vs. loaded_from L re v t"
    then show ?thesis by auto
  qed
qed

lemma getCopies_keys:
  assumes "getCopies L obs p (Some re) = Returns (Inr cs, obs')"
      and "t \<in> fst ` set cs"
  shows "\<exists>v \<in> set (filepath_WalkDir L p). loaded_from L re v t"
proof -
  from assms(1) have "walk L (Some re) (filepath_WalkDir L p) [] = Returns (Inr cs)"
    by (auto simp add: getCopies_def Let_def split: ret.splits sum.splits if_splits)
  from walk_keys [OF this assms(2)] show ?thesis by simp
qed

text \<open>
  C10.  NewLocalizer gives the same result whatever \<open>LocaleExtensions\<close> the caller
  supplies.  The localizer it constructs holds the default pattern, its copies are those
  that \<open>_getCopies\<close> loads with the default pattern, so every locale it holds comes from
  a file whose name matches the default pattern; and after any number of calls of
  Refresh the localizer still holds the default pattern and Refresh loads with it.
\<close>

theorem NewLocalizer_ignores_extensions:
  "NewLocalizer L obs (cfg\<lparr>LocaleExtensions := x\<rparr>) = NewLocalizer L obs cfg \<and>
   (\<forall>l. NewLocalizer L obs cfg = Returns (Inr l) \<longrightarrow>
      LocaleExtensions (lconfig l) = Some LOCALIZER_DEFAULT_LOCALE_EXTENSIONS \<and>
      (\<exists>p. LocalesPath (lconfig l) = Some p \<and>
         getCopies L obs p (Some LOCALIZER_DEFAULT_LOCALE_EXTENSIONS) =
           Returns (Inr (lcopies l), lobserver l) \<and>
         (\<forall>t \<in> fst ` set (lcopies l).
            \<exists>v \<in> set (filepath_WalkDir L p).
              loaded_from L LOCALIZER_DEFAULT_LOCALE_EXTENSIONS v t)) \<and>
      (\<forall>n l'. Refresh_n L n l = Returns l' \<longrightarrow>
         LocaleExtensions (lconfig l') = Some LOCALIZER_DEFAULT_LOCALE_EXTENSIONS \<and>
         (\<forall>p. LocalesPath (lconfig l') = Some p \<longrightarrow>
            Refresh L l' =
              (case getCopies L (lobserver l') p (Some LOCALIZER_DEFAULT_LOCALE_EXTENSIONS) of
                 Returns (Inl err, obs') \<Rightarrow>
                   Returns (Some (Wrap ErrLocalizerGeneric err), l'\<lparr>lobserver := obs'\<rparr>)
               | Returns (Inr copiesByLang, obs') \<Rightarrow>
                   Returns (None, l'\<lparr>lobserver := obs', lcopies := copiesByLang\<rparr>)
               | Panics \<Rightarrow> Panics
               | Hangs \<Rightarrow> Hangs))))"
proof (intro conjI allI impI)
  show "NewLocalizer L obs (cfg\<lparr>LocaleExtensions := x\<rparr>) = NewLocalizer L obs cfg"
    by (rule NewLocalizer_overwrites)
next
  fix l assume n: "NewLocalizer L obs cfg = Returns (Inr l)"
  show "LocaleExtensions (lconfig l) = Some LOCALIZER_DEFAULT_LOCALE_EXTENSIONS"
    using n by (rule NewLocalizer_config(1))
  from NewLocalizer_config(2) [OF n] obtain p where
    p: "LocalesPath (lconfig l) = Some p" and
    g: "getCopies L obs p (Some LOCALIZER_DEFAULT_LOCALE_EXTENSIONS) =
          Returns (Inr (lcopies l), lobserver l)"
    by blast
  show "\<exists>p. LocalesPath (lconfig l) = Some p \<and>
         getCopies L obs p (Some LOCALIZER_DEFAULT_LOCALE_EXTENSIONS) =
           Returns (Inr (lcopies l), lobserver l) \<and>
         (\<forall>t \<in> fst ` set (lcopies l).
            \<exists>v \<in> set (filepath_WalkDir L p).
              loaded_from L LOCALIZER_DEFAULT_LOCALE_EXTENSIONS v t)"
    using p g getCopies_keys [OF g] by blast
next
  fix l n l'
  assume n: "NewLocalizer L obs cfg = Returns (Inr l)" and r: "Refresh_n L n l = Returns l'"
  show "LocaleExtensions (lconfig l') = Some LOCALIZER_DEFAULT_LOCALE_EXTENSIONS"
    using NewLocalizer_config(1) [OF n] Refresh_n_config [OF r] by simp
next
  fix l n l' p
  assume n: "NewLocalizer L obs cfg = Returns (Inr l)" and r: "Refresh_n L n l = Returns l'"
     and p: "LocalesPath (lconfig l') = Some p"
  have "LocaleExtensions (lconfig l') = Some LOCALIZER_DEFAULT_LOCALE_EXTENSIONS"
    using NewLocalizer_config(1) [OF n] Refresh_n_config [OF r] by simp
  from Refresh_default [OF this p]
  show "Refresh L l' =
              (case getCopies L (lobserver l') p (Some LOCALIZER_DEFAULT_LOCALE_EXTENSIONS) of
                 Returns (Inl err, obs') \<Rightarrow>
                   Returns (Some (Wrap ErrLocalizerGeneric err), l'\<lparr>lobserver := obs'\<rparr>)
               | Returns (Inr copiesByLang, obs') \<Rightarrow>
                   Returns (None, l'\<lparr>lobserver := obs', lcopies := copiesByLang\<rparr>)
               | Panics \<Rightarrow> Panics
               | Hangs \<Rightarrow> Hangs)" .
qed

lemma mem_lib_simps:
  "filepath_Clean mem = (\<lambda>p. if take 2 p = ''./'' then drop 2 p else p)"
  "filepath_Ext mem = mem_Ext"
  "filepath_WalkDir mem = mem_WalkDir"
  "ioutil_ReadFile mem = mem_ReadFile"
  "yaml_Unmarshal mem = mem_Unmarshal"
  "language_Parse mem = mem_Parse"
  by (simp_all add: mem_def)

lemma mem_walk:
  "walk mem (Some LOCALIZER_DEFAULT_LOCALE_EXTENSIONS) (mem_WalkDir ''locales'') [] =
     Returns (Inr [(''en'', [''HELLO'' \<mapsto> ''hello''])])"
  by (simp add: mem_WalkDir_def walk_fn_def mem_lib_simps mem_simps mem_MatchString_def
        LOCALIZER_DEFAULT_LOCALE_EXTENSIONS_def MIGRATOR_ERR_DB_ALREADY_CLOSED_def ends_with_def
        mem_Ext_def mem_Parse_def mem_ReadFile_def mem_Unmarshal_def)

lemma mem_NewLocalizer:
  "\<exists>l. NewLocalizer mem [] json_config = Returns (Inr l) \<and> map fst (lcopies l) = [''en'']"
  by (simp add: NewLocalizer_def json_config_def Let_def getCopies_def mem_lib_simps
        LOCALIZER_DEFAULT_LOCALES_PATH_def mem_walk)

theorem NewLocalizer_ignores_extensions_witness:
  "NewLocalizer mem [] (json_config\<lparr>LocaleExtensions := None\<rparr>) = NewLocalizer mem [] json_config \<and>
   (\<exists>l. NewLocalizer mem [] json_config = Returns (Inr l) \<and>
        LocaleExtensions (lconfig l) = Some LOCALIZER_DEFAULT_LOCALE_EXTENSIONS \<and>
        map fst (lcopies l) = [''en''])"
proof -
  note t = NewLocalizer_ignores_extensions [where L = mem and obs = "[]" and cfg = json_config
      and x = None]
  from mem_NewLocalizer obtain l where
    l: "NewLocalizer mem [] json_config = Returns (Inr l)" and c: "map fst (lcopies l) = [''en'']"
    by auto
  have e: "LocaleExtensions (lconfig l) = Some LOCALIZER_DEFAULT_LOCALE_EXTENSIONS"
    by (rule t [THEN conjunct2, rule_format, OF l, THEN conjunct1])
  show ?thesis
  proof (intro conjI exI [of _ l])
    show "NewLocalizer mem [] (json_config\<lparr>LocaleExtensions := None\<rparr>) =
            NewLocalizer mem [] json_config"
      by (rule t [THEN conjunct1])
  qed (rule l e c)+
qed

end
